theory Spec2Isabelle
  imports Complex_Main
begin

section \<open>Data model (store/models.py)\<close>

text \<open>
  A \<open>Decimal\<close> is modelled by the rational number it denotes, so sums and products are
  exact. (Python's default decimal context keeps 28 significant digits; prices are stored
  with at most 10 digits, two of them after the point.)  A nullable attribute is an
  \<open>option\<close>.  Primary keys and user ids are natural numbers, quantities are Python
  integers.
\<close>

type_synonym Decimal = rat

record Product =
  pk :: nat
  name :: string
  regular_price :: "Decimal option"
  sale_price :: "Decimal option"

record Order =
  pk :: nat
  user :: nat
  completed :: bool

text \<open>
  The foreign key \<open>order\<close> holds the primary key of the order; the foreign key
  \<open>product\<close> is represented by the product row that \<open>item.product\<close> loads.
\<close>

record OrderItem =
  pk :: nat
  order :: nat
  product :: Product
  quantity :: int

record User =
  pk :: nat
  is_active :: bool
  is_staff :: bool

text \<open>
  The relational store: one list of rows per table, in insertion order, and the
  auto-increment counter of the two tables the views insert into.
\<close>

record db =
  Product_objects :: "Product list"
  Order_objects :: "Order list"
  OrderItem_objects :: "OrderItem list"
  next_Order_pk :: nat
  next_OrderItem_pk :: nat

text \<open>Primary keys are unique and were handed out by the counters.\<close>

definition wf_db :: "db \<Rightarrow> bool" where
  "wf_db d \<longleftrightarrow>
     distinct (map Order.pk (Order_objects d)) \<and>
     distinct (map OrderItem.pk (OrderItem_objects d)) \<and>
     list_all (\<lambda>row. Order.pk row < next_Order_pk d) (Order_objects d) \<and>
     list_all (\<lambda>i. OrderItem.pk i < next_OrderItem_pk d) (OrderItem_objects d)"

text \<open>Python's \<open>x or d\<close>: the default replaces \<open>None\<close> and a zero value.\<close>

definition py_or :: "'a::zero option \<Rightarrow> 'a \<Rightarrow> 'a" where
  "py_or x d = (case x of None \<Rightarrow> d | Some v \<Rightarrow> if v = 0 then d else v)"

definition Product_display_price :: "Product \<Rightarrow> Decimal option" where
  "Product_display_price self =
     (if sale_price self \<noteq> None then sale_price self else regular_price self)"

text \<open>\<open>order.items.all()\<close>: the reverse side of the foreign key.\<close>

definition Order_items :: "db \<Rightarrow> Order \<Rightarrow> OrderItem list" where
  "Order_items d self = filter (\<lambda>item. order item = Order.pk self) (OrderItem_objects d)"

definition Order_total_price :: "db \<Rightarrow> Order \<Rightarrow> Decimal" where
  "Order_total_price d self =
     sum_list (map (\<lambda>item. py_or (Product_display_price (product item)) 0 * of_int (quantity item))
                   (Order_items d self))"


section \<open>Query operations of the object-relational mapper\<close>

datatype exn =
    DoesNotExist
  | MultipleObjectsReturned
  | Http404
  | GatewayError string

text \<open>\<open>Model.objects.get(...)\<close>: exactly one matching row, or an exception.\<close>

definition objects_get :: "('a \<Rightarrow> bool) \<Rightarrow> 'a list \<Rightarrow> exn + 'a" where
  "objects_get P rows =
     (case filter P rows of
        [] \<Rightarrow> Inl DoesNotExist
      | [x] \<Rightarrow> Inr x
      | _ \<Rightarrow> Inl MultipleObjectsReturned)"

definition get_object_or_404 :: "('a \<Rightarrow> bool) \<Rightarrow> 'a list \<Rightarrow> exn + 'a" where
  "get_object_or_404 P rows =
     (case objects_get P rows of
        Inl DoesNotExist \<Rightarrow> Inl Http404
      | Inl e \<Rightarrow> Inl e
      | Inr x \<Rightarrow> Inr x)"

text \<open>\<open>Order.objects.create(user=u, completed=c)\<close>.\<close>

definition Order_create :: "db \<Rightarrow> nat \<Rightarrow> bool \<Rightarrow> db \<times> Order" where
  "Order_create d u c =
     (let new = \<lparr>Order.pk = next_Order_pk d, user = u, completed = c\<rparr>
      in (d\<lparr>Order_objects := Order_objects d @ [new],
            next_Order_pk := Suc (next_Order_pk d)\<rparr>, new))"

text \<open>
  \<open>instance.save()\<close> of a loaded row: an UPDATE of the row with that primary key, and
  an INSERT when the UPDATE matched nothing.
\<close>

definition Order_save :: "Order \<Rightarrow> db \<Rightarrow> db" where
  "Order_save self d =
     (if list_ex (\<lambda>row. Order.pk row = Order.pk self) (Order_objects d)
      then d\<lparr>Order_objects :=
               map (\<lambda>row. if Order.pk row = Order.pk self then self else row) (Order_objects d)\<rparr>
      else d\<lparr>Order_objects := Order_objects d @ [self]\<rparr>)"

definition OrderItem_save :: "OrderItem \<Rightarrow> db \<Rightarrow> db" where
  "OrderItem_save self d =
     (if list_ex (\<lambda>i. OrderItem.pk i = OrderItem.pk self) (OrderItem_objects d)
      then d\<lparr>OrderItem_objects :=
               map (\<lambda>i. if OrderItem.pk i = OrderItem.pk self then self else i)
                   (OrderItem_objects d)\<rparr>
      else d\<lparr>OrderItem_objects := OrderItem_objects d @ [self]\<rparr>)"

text \<open>\<open>item.delete()\<close>.\<close>

definition OrderItem_delete :: "OrderItem \<Rightarrow> db \<Rightarrow> db" where
  "OrderItem_delete self d =
     d\<lparr>OrderItem_objects :=
         filter (\<lambda>i. OrderItem.pk i \<noteq> OrderItem.pk self) (OrderItem_objects d)\<rparr>"

text \<open>
  \<open>Order.objects.filter(...).delete()\<close>: the matching orders go, and with them
  (\<open>on_delete=CASCADE\<close>) the line items that reference them.
\<close>

definition Order_filter_delete :: "(Order \<Rightarrow> bool) \<Rightarrow> db \<Rightarrow> db" where
  "Order_filter_delete P d =
     (let gone = map Order.pk (filter P (Order_objects d))
      in d\<lparr>Order_objects := filter (\<lambda>row. \<not> P row) (Order_objects d),
           OrderItem_objects := filter (\<lambda>i. order i \<notin> set gone) (OrderItem_objects d)\<rparr>)"

text \<open>
  \<open>OrderItem.objects.get_or_create(order=order, product=product,
  defaults={"quantity": q})\<close>, returning the row and whether it was created.
\<close>

definition OrderItem_get_or_create ::
  "db \<Rightarrow> Order \<Rightarrow> Product \<Rightarrow> int \<Rightarrow> db \<times> (exn + OrderItem \<times> bool)" where
  "OrderItem_get_or_create d the_order the_product q =
     (case objects_get (\<lambda>i. order i = Order.pk the_order \<and> Product.pk (product i) = Product.pk the_product)
                       (OrderItem_objects d) of
        Inr item \<Rightarrow> (d, Inr (item, False))
      | Inl DoesNotExist \<Rightarrow>
          (let new = \<lparr>OrderItem.pk = next_OrderItem_pk d, order = Order.pk the_order,
                      product = the_product, quantity = q\<rparr>
           in (d\<lparr>OrderItem_objects := OrderItem_objects d @ [new],
                 next_OrderItem_pk := Suc (next_OrderItem_pk d)\<rparr>, Inr (new, True)))
      | Inl e \<Rightarrow> (d, Inl e))"

text \<open>\<open>OrderItem.objects.filter(pk=p).update(quantity=F("quantity") + 1)\<close>.\<close>

definition OrderItem_increment :: "nat \<Rightarrow> db \<Rightarrow> db" where
  "OrderItem_increment p d =
     d\<lparr>OrderItem_objects :=
         map (\<lambda>i. if OrderItem.pk i = p then i\<lparr>quantity := quantity i + 1\<rparr> else i)
             (OrderItem_objects d)\<rparr>"

text \<open>\<open>item.order\<close>: the order row the foreign key points to.\<close>

definition OrderItem_order :: "db \<Rightarrow> OrderItem \<Rightarrow> exn + Order" where
  "OrderItem_order d item = objects_get (\<lambda>row. Order.pk row = order item) (Order_objects d)"

text \<open>
  The lookup \<open>order__user=u, order__completed=False\<close> on line items: the item's order
  row belongs to \<open>u\<close> and is open.
\<close>

definition in_open_order_of :: "db \<Rightarrow> nat \<Rightarrow> OrderItem \<Rightarrow> bool" where
  "in_open_order_of d u item =
     list_ex (\<lambda>row. Order.pk row = order item \<and> Order.user row = u \<and> \<not> completed row) (Order_objects d)"

section \<open>store/utils.py\<close>

definition get_or_create_open_order :: "db \<Rightarrow> nat \<Rightarrow> db \<times> Order" where
  "get_or_create_open_order d u =
     (case sort_key Order.pk (filter (\<lambda>row. Order.user row = u \<and> \<not> completed row) (Order_objects d)) of
        the_order # _ \<Rightarrow>
          (Order_filter_delete
             (\<lambda>row. Order.user row = u \<and> \<not> completed row \<and> Order.pk row \<noteq> Order.pk the_order) d, the_order)
      | [] \<Rightarrow> Order_create d u False)"

section \<open>Requests, responses and built-in conversions\<close>

text \<open>
  \<open>request_method\<close> holds the HTTP verb.  \<open>request.user\<close> is \<open>None\<close> for an
  anonymous visitor.  \<open>request.POST\<close> and \<open>request.headers\<close> are dictionaries whose
  \<open>get\<close> returns \<open>None\<close> for a missing key.
\<close>

record request =
  request_method :: string
  user :: "User option"
  POST :: "string \<rightharpoonup> string"
  headers :: "string \<rightharpoonup> string"

text \<open>
  The JSON cart payload.  \<open>total_price\<close> holds the decimal total that the view converts
  with \<open>float\<close>; \<open>cart_html\<close> holds the template name and the order handed to
  \<open>render_to_string\<close>.
\<close>

record payload =
  status :: string
  message :: string
  cart_count :: int
  total_price :: Decimal
  cart_html :: "string \<times> Order"

record payment_context =
  context_order :: Order
  razorpay_order_id :: string
  razorpay_amount :: int
  callback_order_id :: nat

datatype json =
    CartJson payload
  | MessageJson string string

datatype response =
    HttpResponseRedirect string "nat list"
  | TemplateResponse string Order
  | PaymentPage payment_context
  | JsonResponse json nat
  | HttpResponseBadRequest string
  | HttpResponseNotFound
  | ServerError exn

text \<open>
  An exception that leaves a view: \<open>Http404\<close> becomes the 404 response, anything else
  the server error of the framework.
\<close>

definition raised :: "exn \<Rightarrow> response" where
  "raised e = (if e = Http404 then HttpResponseNotFound else ServerError e)"

text \<open>
  \<open>int(s)\<close> on a string of ASCII characters: surrounding whitespace is stripped, one
  sign is allowed, then decimal digits, with single underscores between digits.
  \<open>None\<close> stands for \<open>ValueError\<close>.
\<close>

definition is_space :: "char \<Rightarrow> bool" where
  "is_space c \<longleftrightarrow>
     (let n = (of_char c :: nat) in n = 32 \<or> (9 \<le> n \<and> n \<le> 13) \<or> (28 \<le> n \<and> n \<le> 31))"

definition strip :: "string \<Rightarrow> string" where
  "strip s = rev (dropWhile is_space (rev (dropWhile is_space s)))"

definition digit_of :: "char \<Rightarrow> nat option" where
  "digit_of c =
     (let n = (of_char c :: nat) in if 48 \<le> n \<and> n \<le> 57 then Some (n - 48) else None)"

fun more_digits :: "nat \<Rightarrow> string \<Rightarrow> nat option" where
  "more_digits acc [] = Some acc"
| "more_digits acc (c # cs) =
     (if c = CHR ''_''
      then (case cs of
              [] \<Rightarrow> None
            | c' # cs' \<Rightarrow>
                (case digit_of c' of
                   None \<Rightarrow> None
                 | Some k \<Rightarrow> more_digits (10 * acc + k) cs'))
      else (case digit_of c of
              None \<Rightarrow> None
            | Some k \<Rightarrow> more_digits (10 * acc + k) cs))"

definition unsigned_literal :: "string \<Rightarrow> nat option" where
  "unsigned_literal s =
     (case s of
        [] \<Rightarrow> None
      | c # cs \<Rightarrow> (case digit_of c of None \<Rightarrow> None | Some k \<Rightarrow> more_digits k cs))"

definition py_int :: "string \<Rightarrow> int option" where
  "py_int s =
     (case strip s of
        [] \<Rightarrow> None
      | c # cs \<Rightarrow>
          if c = CHR ''-'' then map_option (\<lambda>n. - int n) (unsigned_literal cs)
          else if c = CHR ''+'' then map_option int (unsigned_literal cs)
          else map_option int (unsigned_literal (c # cs)))"

text \<open>\<open>int(x)\<close> on a \<open>Decimal\<close>: truncation toward zero.\<close>

definition int_of_Decimal :: "Decimal \<Rightarrow> int" where
  "int_of_Decimal x = (if 0 \<le> x then \<lfloor>x\<rfloor> else \<lceil>x\<rceil>)"

text \<open>
  The payment gateway client is external: creating a gateway order and verifying a
  callback signature either return or raise.
\<close>

record rp_order_request =
  amount :: int
  currency :: string
  payment_capture :: string

record params_dict =
  p_razorpay_order_id :: string
  p_razorpay_payment_id :: string
  p_razorpay_signature :: string

record gateway =
  order_create :: "rp_order_request \<Rightarrow> exn + string"
  verify_payment_signature :: "params_dict \<Rightarrow> exn + unit"

section \<open>store/views.py\<close>

definition view_get_or_create_open_order :: "db \<Rightarrow> nat \<Rightarrow> db \<times> (exn + Order)" where
  "view_get_or_create_open_order d u =
     (case objects_get (\<lambda>row. Order.user row = u \<and> \<not> completed row) (Order_objects d) of
        Inr the_order \<Rightarrow> (d, Inr the_order)
      | Inl DoesNotExist \<Rightarrow> (case Order_create d u False of (d', new) \<Rightarrow> (d', Inr new))
      | Inl e \<Rightarrow> (d, Inl e))"

definition is_ajax :: "request \<Rightarrow> bool" where
  "is_ajax req \<longleftrightarrow> headers req ''X-Requested-With'' = Some ''XMLHttpRequest''"

text \<open>\<open>aggregate(total=Sum("quantity"))["total"]\<close>: \<open>None\<close> over no rows.\<close>

definition aggregate_Sum :: "int list \<Rightarrow> int option" where
  "aggregate_Sum xs = (if xs = [] then None else Some (sum_list xs))"

text \<open>The keyword arguments \<open>message\<close> and \<open>status\<close> are \<open>None\<close> when omitted.\<close>

definition json_cart_payload ::
  "db \<Rightarrow> Order \<Rightarrow> request \<Rightarrow> string option \<Rightarrow> string option \<Rightarrow> payload" where
  "json_cart_payload d the_order req msg st =
     (let count = py_or (aggregate_Sum (map quantity (Order_items d the_order))) 0;
          html = (''store/_cart_items.html'', the_order);
          total = Order_total_price d the_order
      in \<lparr>status = (case st of None \<Rightarrow> ''success'' | Some s \<Rightarrow> s),
          message = (case msg of None \<Rightarrow> [] | Some m \<Rightarrow> m),
          cart_count = count,
          total_price = total,
          cart_html = html\<rparr>)"

definition login_redirect :: response where
  "login_redirect = HttpResponseRedirect ''store:login'' []"

definition cart :: "db \<Rightarrow> request \<Rightarrow> db \<times> response" where
  "cart d req =
     (case request.user req of
        None \<Rightarrow> (d, login_redirect)
      | Some u \<Rightarrow>
          (case view_get_or_create_open_order d (User.pk u) of
             (d', Inl e) \<Rightarrow> (d', raised e)
           | (d', Inr the_order) \<Rightarrow> (d', TemplateResponse ''store/cart.html'' the_order)))"

definition add_to_cart :: "db \<Rightarrow> request \<Rightarrow> nat \<Rightarrow> db \<times> response" where
  "add_to_cart d req p =
     (let ajax = is_ajax req in
      case request.user req of
        None \<Rightarrow>
          (d, if ajax
              then JsonResponse (MessageJson ''unauthenticated'' ''Please log in to add items'') 401
              else login_redirect)
      | Some u \<Rightarrow>
          (case get_object_or_404 (\<lambda>row. Product.pk row = p) (Product_objects d) of
             Inl e \<Rightarrow> (d, raised e)
           | Inr the_product \<Rightarrow>
               (case view_get_or_create_open_order d (User.pk u) of
                  (d1, Inl e) \<Rightarrow> (d1, raised e)
                | (d1, Inr the_order) \<Rightarrow>
                    (case OrderItem_get_or_create d1 the_order the_product 1 of
                       (d2, Inl e) \<Rightarrow> (d2, raised e)
                     | (d2, Inr (item, created)) \<Rightarrow>
                         (let d3 = (if \<not> created
                                    then OrderItem_increment (OrderItem.pk item) d2 else d2);
                              pl = json_cart_payload d3 the_order req
                                     (Some ([CHR 0x22] @ name the_product @ [CHR 0x22]
                                            @ '' added to cart'')) None
                          in (d3, if ajax then JsonResponse (CartJson pl) 200
                                  else HttpResponseRedirect ''store:cart'' []))))))"

definition remove_from_cart :: "db \<Rightarrow> request \<Rightarrow> nat \<Rightarrow> db \<times> response" where
  "remove_from_cart d req item_id =
     (case request.user req of
        None \<Rightarrow> (d, login_redirect)
      | Some u \<Rightarrow>
          (case get_object_or_404
                  (\<lambda>i. OrderItem.pk i = item_id \<and> in_open_order_of d (User.pk u) i)
                  (OrderItem_objects d) of
             Inl e \<Rightarrow> (d, raised e)
           | Inr item \<Rightarrow>
               (case OrderItem_order d item of
                  Inl e \<Rightarrow> (d, raised e)
                | Inr the_order \<Rightarrow>
                    (let nm = name (product item);
                         d' = OrderItem_delete item d
                     in (d', if is_ajax req
                             then JsonResponse
                                    (CartJson (json_cart_payload d' the_order req
                                       (Some ([CHR 0x22] @ nm @ [CHR 0x22]
                                              @ '' removed from cart'')) None)) 200
                             else HttpResponseRedirect ''store:cart'' [])))))"

definition update_cart_quantity :: "db \<Rightarrow> request \<Rightarrow> nat \<Rightarrow> db \<times> response" where
  "update_cart_quantity d req item_id =
     (case request.user req of
        None \<Rightarrow> (d, login_redirect)
      | Some u \<Rightarrow>
          (case get_object_or_404
                  (\<lambda>i. OrderItem.pk i = item_id \<and> in_open_order_of d (User.pk u) i)
                  (OrderItem_objects d) of
             Inl e \<Rightarrow> (d, raised e)
           | Inr item \<Rightarrow>
               (let item' =
                      (if request_method req = ''POST''
                       then (let action = POST req ''action''; qty = POST req ''quantity'' in
                             case qty of
                               Some q \<Rightarrow>
                                 (case py_int q of
                                    Some n \<Rightarrow> item\<lparr>quantity := max 1 n\<rparr>
                                  | None \<Rightarrow> item)
                             | None \<Rightarrow>
                                 if action = Some ''increase''
                                 then item\<lparr>quantity := quantity item + 1\<rparr>
                                 else if action = Some ''decrease''
                                 then item\<lparr>quantity := max 1 (quantity item - 1)\<rparr>
                                 else item)
                       else item);
                    d' = (if request_method req = ''POST'' then OrderItem_save item' d else d)
                in if is_ajax req
                   then (case OrderItem_order d' item' of
                           Inl e \<Rightarrow> (d', raised e)
                         | Inr the_order \<Rightarrow>
                             (d', JsonResponse
                                    (CartJson (json_cart_payload d' the_order req
                                       (Some ''Quantity updated'') None)) 200))
                   else (d', HttpResponseRedirect ''store:cart'' []))))"

definition checkout :: "gateway \<Rightarrow> db \<Rightarrow> request \<Rightarrow> db \<times> response" where
  "checkout gw d req =
     (case request.user req of
        None \<Rightarrow> (d, login_redirect)
      | Some u \<Rightarrow>
          (case get_object_or_404 (\<lambda>row. Order.user row = User.pk u \<and> \<not> completed row)
                  (Order_objects d) of
             Inl e \<Rightarrow> (d, raised e)
           | Inr the_order \<Rightarrow>
               if request_method req = ''POST''
               then (let payment_method = POST req ''payment_method'' in
                     if payment_method = Some ''cod''
                     then (Order_save (the_order\<lparr>completed := True\<rparr>) d,
                           HttpResponseRedirect ''store:order_success'' [Order.pk the_order])
                     else if payment_method = Some ''razorpay''
                     then (let amount_paise = int_of_Decimal (Order_total_price d the_order * 100) in
                           case order_create gw
                                  \<lparr>amount = amount_paise, currency = ''INR'',
                                   payment_capture = ''1''\<rparr> of
                             Inl e \<Rightarrow> (d, raised e)
                           | Inr rp_order \<Rightarrow>
                               (d, PaymentPage
                                     \<lparr>context_order = the_order,
                                      razorpay_order_id = rp_order,
                                      razorpay_amount = amount_paise,
                                      callback_order_id = Order.pk the_order\<rparr>))
                     else (d, TemplateResponse ''store/checkout.html'' the_order))
               else (d, TemplateResponse ''store/checkout.html'' the_order)))"

definition callback_params :: "request \<Rightarrow> params_dict" where
  "callback_params req =
     \<lparr>p_razorpay_order_id =
        (case POST req ''razorpay_order_id'' of None \<Rightarrow> [] | Some v \<Rightarrow> v),
      p_razorpay_payment_id =
        (case POST req ''razorpay_payment_id'' of None \<Rightarrow> [] | Some v \<Rightarrow> v),
      p_razorpay_signature =
        (case POST req ''razorpay_signature'' of None \<Rightarrow> [] | Some v \<Rightarrow> v)\<rparr>"

definition paymenthandler :: "gateway \<Rightarrow> db \<Rightarrow> request \<Rightarrow> nat \<Rightarrow> db \<times> response" where
  "paymenthandler gw d req order_id =
     (case request.user req of
        None \<Rightarrow> (d, login_redirect)
      | Some u \<Rightarrow>
          if request_method req \<noteq> ''POST'' then (d, HttpResponseBadRequest ''Invalid Request'')
          else
            (case get_object_or_404
                    (\<lambda>row. Order.pk row = order_id \<and> Order.user row = User.pk u \<and> \<not> completed row)
                    (Order_objects d) of
               Inl e \<Rightarrow> (d, raised e)
             | Inr the_order \<Rightarrow>
                 (case verify_payment_signature gw (callback_params req) of
                    Inl e \<Rightarrow> (d, HttpResponseBadRequest ''Payment Verification Failed'')
                  | Inr _ \<Rightarrow>
                      (Order_save (the_order\<lparr>completed := True\<rparr>) d,
                       HttpResponseRedirect ''store:order_success'' [Order.pk the_order]))))"

definition order_success :: "db \<Rightarrow> request \<Rightarrow> nat \<Rightarrow> db \<times> response" where
  "order_success d req order_id =
     (case request.user req of
        None \<Rightarrow> (d, login_redirect)
      | Some u \<Rightarrow>
          (case get_object_or_404
                  (\<lambda>row. Order.pk row = order_id \<and> Order.user row = User.pk u \<and> completed row)
                  (Order_objects d) of
             Inl e \<Rightarrow> (d, raised e)
           | Inr the_order \<Rightarrow> (d, TemplateResponse ''store/order_success.html'' the_order)))"

section \<open>adminpanel/views.py\<close>

definition order_toggle_completed :: "db \<Rightarrow> request \<Rightarrow> nat \<Rightarrow> db \<times> response" where
  "order_toggle_completed d req p =
     (case request.user req of
        None \<Rightarrow> (d, HttpResponseRedirect ''adminpanel:login'' [])
      | Some u \<Rightarrow>
          if \<not> (is_active u \<and> is_staff u) then (d, HttpResponseRedirect ''adminpanel:login'' [])
          else
            (case get_object_or_404 (\<lambda>row. Order.pk row = p) (Order_objects d) of
               Inl e \<Rightarrow> (d, raised e)
             | Inr the_order \<Rightarrow>
                 (Order_save (the_order\<lparr>completed := \<not> completed the_order\<rparr>) d,
                  HttpResponseRedirect ''adminpanel:order_detail'' [p])))"

section \<open>Runs of requests\<close>

text \<open>The URL table of the store (store/urls.py), and a run of storefront requests.\<close>

datatype store_view =
    Cart
  | AddToCart nat
  | RemoveFromCart nat
  | UpdateCartQuantity nat
  | Checkout
  | PaymentHandler nat
  | OrderSuccess nat

fun dispatch :: "gateway \<Rightarrow> db \<Rightarrow> request \<times> store_view \<Rightarrow> db \<times> response" where
  "dispatch gw d (req, Cart) = cart d req"
| "dispatch gw d (req, AddToCart p) = add_to_cart d req p"
| "dispatch gw d (req, RemoveFromCart i) = remove_from_cart d req i"
| "dispatch gw d (req, UpdateCartQuantity i) = update_cart_quantity d req i"
| "dispatch gw d (req, Checkout) = checkout gw d req"
| "dispatch gw d (req, PaymentHandler p) = paymenthandler gw d req p"
| "dispatch gw d (req, OrderSuccess p) = order_success d req p"

fun run :: "gateway \<Rightarrow> db \<Rightarrow> (request \<times> store_view) list \<Rightarrow> db" where
  "run gw d [] = d"
| "run gw d (c # cs) = run gw (fst (dispatch gw d c)) cs"

section \<open>The price rule as the specification words it\<close>



section \<open>Sample data\<close>

definition alice :: User where
  "alice = \<lparr>User.pk = 1, is_active = True, is_staff = False\<rparr>"

definition bob :: User where
  "bob = \<lparr>User.pk = 2, is_active = True, is_staff = False\<rparr>"

definition clerk :: User where
  "clerk = \<lparr>User.pk = 9, is_active = True, is_staff = True\<rparr>"

definition tea :: Product where
  "tea = \<lparr>Product.pk = 1, name = ''Tea'', regular_price = Some 100, sale_price = None\<rparr>"

definition rice :: Product where
  "rice = \<lparr>Product.pk = 2, name = ''Rice'', regular_price = Some 50, sale_price = Some (91 / 2)\<rparr>"

definition mk_request :: "string \<Rightarrow> User option \<Rightarrow> (string \<times> string) list \<Rightarrow> bool \<Rightarrow> request" where
  "mk_request m u form ajax =
     \<lparr>request_method = m, user = u, POST = map_of form,
      headers = (if ajax then [''X-Requested-With'' \<mapsto> ''XMLHttpRequest''] else Map.empty)\<rparr>"

definition db_empty :: db where
  "db_empty = \<lparr>Product_objects = [tea, rice], Order_objects = [], OrderItem_objects = [],
               next_Order_pk = 1, next_OrderItem_pk = 1\<rparr>"

text \<open>Alice's open order 1 holds three teas and two rice; Bob's open order 2 one tea.\<close>

definition db_carts :: db where
  "db_carts =
     \<lparr>Product_objects = [tea, rice],
      Order_objects = [\<lparr>Order.pk = 1, user = 1, completed = False\<rparr>,
                       \<lparr>Order.pk = 2, user = 2, completed = False\<rparr>],
      OrderItem_objects = [\<lparr>OrderItem.pk = 1, order = 1, product = tea, quantity = 3\<rparr>,
                           \<lparr>OrderItem.pk = 2, order = 1, product = rice, quantity = 2\<rparr>,
                           \<lparr>OrderItem.pk = 3, order = 2, product = tea, quantity = 1\<rparr>],
      next_Order_pk = 3, next_OrderItem_pk = 4\<rparr>"

text \<open>A gateway that refuses everything, and one that accepts one order request.\<close>

definition gw_reject :: gateway where
  "gw_reject = \<lparr>order_create = (\<lambda>r. Inl (GatewayError ''BadRequestError'')),
                verify_payment_signature =
                  (\<lambda>p. Inl (GatewayError ''SignatureVerificationError''))\<rparr>"

definition gw_accept :: "rp_order_request \<Rightarrow> gateway" where
  "gw_accept expected =
     \<lparr>order_create = (\<lambda>r. if r = expected then Inr ''order_A1''
                            else Inl (GatewayError ''BadRequestError'')),
      verify_payment_signature = (\<lambda>p. Inr ())\<rparr>"

section \<open>Queries used to state the properties\<close>

text \<open>The line items of an order for one product: what \<open>get_or_create\<close> looks up.\<close>

definition cart_lines :: "db \<Rightarrow> Order \<Rightarrow> nat \<Rightarrow> OrderItem list" where
  "cart_lines d the_order p =
     filter (\<lambda>i. order i = Order.pk the_order \<and> Product.pk (product i) = p) (OrderItem_objects d)"

text \<open>
  From \<open>d\<close> to \<open>d'\<close> the keys stay unique and every completed order of \<open>d\<close> is still
  a row of \<open>d'\<close>.
\<close>

definition keeps_completed :: "db \<Rightarrow> db \<Rightarrow> bool" where
  "keeps_completed d d' \<longleftrightarrow>
     wf_db d' \<and> (\<forall>row \<in> set (Order_objects d). completed row \<longrightarrow> row \<in> set (Order_objects d'))"

text \<open>Alice's order 1, with one tea, is completed.\<close>

definition db_done :: db where
  "db_done =
     \<lparr>Product_objects = [tea, rice],
      Order_objects = [\<lparr>Order.pk = 1, user = 1, completed = True\<rparr>],
      OrderItem_objects = [\<lparr>OrderItem.pk = 1, order = 1, product = tea, quantity = 1\<rparr>],
      next_Order_pk = 2, next_OrderItem_pk = 2\<rparr>"

text \<open>Alice has two open orders, 1 and 2, each with one tea.\<close>

definition db_two_open :: db where
  "db_two_open =
     \<lparr>Product_objects = [tea, rice],
      Order_objects = [\<lparr>Order.pk = 1, user = 1, completed = False\<rparr>,
                       \<lparr>Order.pk = 2, user = 1, completed = False\<rparr>],
      OrderItem_objects = [\<lparr>OrderItem.pk = 1, order = 1, product = tea, quantity = 1\<rparr>,
                           \<lparr>OrderItem.pk = 2, order = 2, product = tea, quantity = 1\<rparr>],
      next_Order_pk = 3, next_OrderItem_pk = 3\<rparr>"

section \<open>Prices and totals\<close>



section \<open>The JSON cart payload\<close>

text \<open>
  Claim C10.  The \<open>cart_count\<close> of the payload is the sum of the quantities of the
  order's line items, 0 for an order without items, and the \<open>status\<close> is "success"
  unless the caller passes another one.
\<close>

theorem cart_count_is_quantity_sum:
  "cart_count (json_cart_payload d the_order req msg st)
     = sum_list (map quantity (Order_items d the_order))
   \<and> (Order_items d the_order = [] \<longrightarrow> cart_count (json_cart_payload d the_order req msg st) = 0)
   \<and> status (json_cart_payload d the_order req msg None) = ''success''
   \<and> status (json_cart_payload d the_order req msg (Some s)) = s"
  by (simp add: json_cart_payload_def aggregate_Sum_def py_or_def)

theorem cart_count_is_quantity_sum_witness:
  "Order_items db_empty \<lparr>Order.pk = 1, user = 1, completed = False\<rparr> = []
   \<and> cart_count (json_cart_payload db_empty \<lparr>Order.pk = 1, user = 1, completed = False\<rparr>
                   (mk_request ''POST'' (Some alice) [] True) None None) = 0"
  using cart_count_is_quantity_sum
          [of db_empty "\<lparr>Order.pk = 1, user = 1, completed = False\<rparr>"
              "mk_request ''POST'' (Some alice) [] True" None None]
  by (simp add: Order_items_def db_empty_def)

text \<open>Two line items with quantities 3 and 2 count as 5, not as 2.\<close>

lemma cart_count_example:
  "cart_count (json_cart_payload db_carts \<lparr>Order.pk = 1, user = 1, completed = False\<rparr>
                 (mk_request ''POST'' (Some alice) [] True) None None) = 5"
  by (simp add: json_cart_payload_def aggregate_Sum_def py_or_def Order_items_def db_carts_def)

section \<open>Lookups by a unique key\<close>

lemma filter_key_unique:
  "distinct (map f xs) \<Longrightarrow> x \<in> set xs \<Longrightarrow> f x = k \<Longrightarrow> Q x
   \<Longrightarrow> filter (\<lambda>y. f y = k \<and> Q y) xs = [x]"
proof (induction xs)
  case Nil
  then show ?case by simp
next
  case (Cons a xs)
  show ?case
  proof (cases "a = x")
    case True
    with Cons.prems have "f x \<notin> f ` set xs" by simp
    then have "\<forall>y\<in>set xs. f y \<noteq> f x" by (metis image_eqI)
    with Cons.prems have "filter (\<lambda>y. f y = k \<and> Q y) xs = []"
      by (simp add: filter_empty_conv)
    with True Cons.prems show ?thesis by simp
  next
    case False
    with Cons.prems have "x \<in> set xs" "f a \<noteq> k" by auto
    with Cons show ?thesis by simp
  qed
qed

lemma objects_get_unique:
  "distinct (map f xs) \<Longrightarrow> x \<in> set xs \<Longrightarrow> f x = k \<Longrightarrow> Q x
   \<Longrightarrow> objects_get (\<lambda>y. f y = k \<and> Q y) xs = Inr x"
  by (simp add: objects_get_def filter_key_unique)

lemma objects_get_key:
  "distinct (map f xs) \<Longrightarrow> x \<in> set xs \<Longrightarrow> f x = k \<Longrightarrow> objects_get (\<lambda>y. f y = k) xs = Inr x"
  using objects_get_unique [of f xs x k "\<lambda>_. True"] by simp

lemma objects_get_none: "\<not> list_ex P xs \<Longrightarrow> objects_get P xs = Inl DoesNotExist"
  by (simp add: objects_get_def list_ex_iff filter_empty_conv)

lemma objects_get_Inr: "objects_get P xs = Inr x \<Longrightarrow> filter P xs = [x]"
  by (auto simp: objects_get_def split: list.splits)

lemma objects_get_Inr_mem: "objects_get P xs = Inr x \<Longrightarrow> x \<in> set xs \<and> P x"
proof -
  assume "objects_get P xs = Inr x"
  then have "x \<in> set (filter P xs)" by (simp add: objects_get_Inr)
  then show ?thesis by simp
qed

lemma get_object_or_404_Inr: "get_object_or_404 P xs = Inr x \<longleftrightarrow> objects_get P xs = Inr x"
  by (auto simp: get_object_or_404_def split: sum.splits exn.splits)

section \<open>Payment verification\<close>

text \<open>
  Claim C3.  For an open order of the requesting user, a callback whose signature
  verification raises (whatever the exception) leaves the database as it was, so the order
  stays open, and is answered with the 400 response "Payment Verification Failed"; the
  handler changes the database only when the verification returned.
\<close>

theorem payment_failure_keeps_order_open:
  assumes "request.user req = Some u"
    and "request_method req = ''POST''"
    and "get_object_or_404
           (\<lambda>row. Order.pk row = order_id \<and> Order.user row = User.pk u \<and> \<not> completed row)
           (Order_objects d) = Inr the_order"
  shows "(verify_payment_signature gw (callback_params req) = Inl e \<longrightarrow>
            paymenthandler gw d req order_id
              = (d, HttpResponseBadRequest ''Payment Verification Failed''))
       \<and> (fst (paymenthandler gw d req order_id) \<noteq> d \<longrightarrow>
            verify_payment_signature gw (callback_params req) = Inr ())"
  using assms by (auto simp: paymenthandler_def split: sum.splits)

theorem payment_failure_keeps_order_open_witness:
  "request.user (mk_request ''POST'' (Some alice) [] False) = Some alice
   \<and> request_method (mk_request ''POST'' (Some alice) [] False) = ''POST''
   \<and> get_object_or_404
        (\<lambda>row. Order.pk row = 1 \<and> Order.user row = User.pk alice \<and> \<not> completed row)
        (Order_objects db_carts) = Inr \<lparr>Order.pk = 1, user = 1, completed = False\<rparr>
   \<and> verify_payment_signature gw_reject
        (callback_params (mk_request ''POST'' (Some alice) [] False))
        = Inl (GatewayError ''SignatureVerificationError'')
   \<and> paymenthandler gw_reject db_carts (mk_request ''POST'' (Some alice) [] False) 1
        = (db_carts, HttpResponseBadRequest ''Payment Verification Failed'')"
proof -
  have u: "request.user (mk_request ''POST'' (Some alice) [] False) = Some alice"
    by (simp add: mk_request_def)
  have m: "request_method (mk_request ''POST'' (Some alice) [] False) = ''POST''"
    by (simp add: mk_request_def)
  have g: "get_object_or_404
        (\<lambda>row. Order.pk row = 1 \<and> Order.user row = User.pk alice \<and> \<not> completed row)
        (Order_objects db_carts) = Inr \<lparr>Order.pk = 1, user = 1, completed = False\<rparr>"
    by (simp add: get_object_or_404_def objects_get_def db_carts_def alice_def)
  have v: "verify_payment_signature gw_reject
        (callback_params (mk_request ''POST'' (Some alice) [] False))
        = Inl (GatewayError ''SignatureVerificationError'')"
    by (simp add: gw_reject_def)
  from payment_failure_keeps_order_open
         [OF u m g, of gw_reject "GatewayError ''SignatureVerificationError''"] v
  have "paymenthandler gw_reject db_carts (mk_request ''POST'' (Some alice) [] False) 1
        = (db_carts, HttpResponseBadRequest ''Payment Verification Failed'')" by blast
  with u m g v show ?thesis by blast
qed

section \<open>The amount sent to the gateway\<close>

lemma int_of_Decimal_integral: "int_of_Decimal (of_int k) = k"
  by (simp add: int_of_Decimal_def)

lemma int_of_Decimal_trunc:
  "\<bar>of_int (int_of_Decimal x)\<bar> \<le> \<bar>x\<bar> \<and> \<bar>x\<bar> < \<bar>of_int (int_of_Decimal x)\<bar> + 1
   \<and> 0 \<le> of_int (int_of_Decimal x) * x"
proof (cases "0 \<le> x")
  case True
  define c where "c = (of_int \<lfloor>x\<rfloor> :: rat)"
  have c0: "0 \<le> c" using True by (simp add: c_def)
  have b: "c \<le> x" "x < c + 1" using floor_correct [of x] by (simp_all add: c_def)
  have "\<bar>c\<bar> = c" "\<bar>x\<bar> = x" using c0 True by simp_all
  moreover have "0 \<le> c * x" using c0 True by simp
  moreover have "of_int (int_of_Decimal x) = c"
    using True by (simp add: int_of_Decimal_def c_def)
  ultimately show ?thesis using b by simp
next
  case False
  define c where "c = (of_int \<lceil>x\<rceil> :: rat)"
  have "\<lceil>x\<rceil> \<le> 0" using False by (simp add: ceiling_le_iff)
  then have c0: "c \<le> 0" by (simp add: c_def)
  have b: "x \<le> c" "c - 1 < x" using ceiling_correct [of x] by (simp_all add: c_def)
  have "\<bar>c\<bar> = - c" "\<bar>x\<bar> = - x" using c0 False by simp_all
  moreover have "0 \<le> c * x" using c0 False by (simp add: mult_nonpos_nonpos)
  moreover have "of_int (int_of_Decimal x) = c"
    using False by (simp add: int_of_Decimal_def c_def)
  ultimately show ?thesis using b by simp
qed

text \<open>
  Claim C8.  At online checkout the amount handed to the gateway, and shown on the payment
  page, is \<open>int(total * 100)\<close>: the integer part of the decimal total times 100,
  truncated toward zero (its absolute value is below that of the exact product by less
  than 1, with the same sign), and exactly total times 100 when that is a whole number, as
  it is for totals with at most two decimal places.
\<close>

theorem checkout_amount_truncates:
  assumes "request.user req = Some u"
    and "request_method req = ''POST''"
    and "POST req ''payment_method'' = Some ''razorpay''"
    and "get_object_or_404 (\<lambda>row. Order.user row = User.pk u \<and> \<not> completed row)
           (Order_objects d) = Inr the_order"
    and "order_create gw
           \<lparr>amount = int_of_Decimal (Order_total_price d the_order * 100),
            currency = ''INR'', payment_capture = ''1''\<rparr> = Inr rp_order"
  shows "checkout gw d req
           = (d, PaymentPage
                   \<lparr>context_order = the_order, razorpay_order_id = rp_order,
                    razorpay_amount = int_of_Decimal (Order_total_price d the_order * 100),
                    callback_order_id = Order.pk the_order\<rparr>)
       \<and> \<bar>of_int (int_of_Decimal (Order_total_price d the_order * 100))\<bar>
            \<le> \<bar>Order_total_price d the_order * 100\<bar>
       \<and> \<bar>Order_total_price d the_order * 100\<bar>
            < \<bar>of_int (int_of_Decimal (Order_total_price d the_order * 100))\<bar> + 1
       \<and> 0 \<le> of_int (int_of_Decimal (Order_total_price d the_order * 100))
                * (Order_total_price d the_order * 100)
       \<and> (Order_total_price d the_order * 100 = of_int k \<longrightarrow>
             int_of_Decimal (Order_total_price d the_order * 100) = k)"
proof -
  have "checkout gw d req
           = (d, PaymentPage
                   \<lparr>context_order = the_order, razorpay_order_id = rp_order,
                    razorpay_amount = int_of_Decimal (Order_total_price d the_order * 100),
                    callback_order_id = Order.pk the_order\<rparr>)"
    using assms by (simp add: checkout_def)
  moreover have "Order_total_price d the_order * 100 = of_int k \<longrightarrow>
             int_of_Decimal (Order_total_price d the_order * 100) = k"
    by (simp add: int_of_Decimal_integral)
  ultimately show ?thesis
    using int_of_Decimal_trunc [of "Order_total_price d the_order * 100"] by blast
qed

lemma total_db_carts:
  "Order_total_price db_carts \<lparr>Order.pk = 1, user = 1, completed = False\<rparr> * 100 = 39100"
  by code_simp

theorem checkout_amount_truncates_witness:
  "request.user (mk_request ''POST'' (Some alice) [(''payment_method'', ''razorpay'')] False)
     = Some alice
   \<and> checkout (gw_accept \<lparr>amount = 39100, currency = ''INR'', payment_capture = ''1''\<rparr>) db_carts
        (mk_request ''POST'' (Some alice) [(''payment_method'', ''razorpay'')] False)
      = (db_carts, PaymentPage
           \<lparr>context_order = \<lparr>Order.pk = 1, user = 1, completed = False\<rparr>,
            razorpay_order_id = ''order_A1'', razorpay_amount = 39100,
            callback_order_id = 1\<rparr>)"
proof -
  let ?req = "mk_request ''POST'' (Some alice) [(''payment_method'', ''razorpay'')] False"
  let ?ord = "\<lparr>Order.pk = 1, user = 1, completed = False\<rparr>"
  let ?gw = "gw_accept \<lparr>amount = 39100, currency = ''INR'', payment_capture = ''1''\<rparr>"
  have u: "request.user ?req = Some alice" by (simp add: mk_request_def)
  have m: "request_method ?req = ''POST''" by (simp add: mk_request_def)
  have p: "POST ?req ''payment_method'' = Some ''razorpay''" by (simp add: mk_request_def)
  have g: "get_object_or_404 (\<lambda>row. Order.user row = User.pk alice \<and> \<not> completed row)
           (Order_objects db_carts) = Inr ?ord"
    by (simp add: get_object_or_404_def objects_get_def db_carts_def alice_def)
  have a: "int_of_Decimal (Order_total_price db_carts ?ord * 100) = 39100"
    using int_of_Decimal_integral [of 39100] by (simp only: total_db_carts of_int_numeral)
  have c: "order_create ?gw
           \<lparr>amount = int_of_Decimal (Order_total_price db_carts ?ord * 100),
            currency = ''INR'', payment_capture = ''1''\<rparr> = Inr ''order_A1''"
    by (subst a) (simp add: gw_accept_def)
  from checkout_amount_truncates [OF u m p g c, of 39100] a u
  show ?thesis by simp
qed

text \<open>A third decimal place is cut off, not rounded: 1.999 gives 199, and -1.999 gives -199.\<close>

lemma int_of_Decimal_not_rounded:
  "int_of_Decimal (1999 / 1000 * 100) = 199 \<and> int_of_Decimal (- (1999 / 1000) * 100) = - 199"
proof -
  have "\<lfloor>(1999 / 10 :: rat)\<rfloor> = 199" by (rule floor_unique) simp_all
  moreover have "\<lceil>- (1999 / 10 :: rat)\<rceil> = - 199" by (rule ceiling_unique) simp_all
  ultimately show ?thesis by (simp add: int_of_Decimal_def)
qed

section \<open>Removing a line item\<close>

lemma in_open_order_ofD:
  "in_open_order_of d u item \<Longrightarrow>
     \<exists>row \<in> set (Order_objects d). Order.pk row = order item \<and> Order.user row = u \<and> \<not> completed row"
  by (simp add: in_open_order_of_def list_ex_iff)

lemma OrderItem_order_found:
  assumes "wf_db d" "in_open_order_of d u item"
  shows "\<exists>row. OrderItem_order d item = Inr row \<and> row \<in> set (Order_objects d)
               \<and> Order.pk row = order item \<and> Order.user row = u \<and> \<not> completed row"
proof -
  from in_open_order_ofD [OF assms(2)] obtain row where
    r: "row \<in> set (Order_objects d)" "Order.pk row = order item" "Order.user row = u" "\<not> completed row"
    by blast
  from assms(1) have "distinct (map Order.pk (Order_objects d))" by (simp add: wf_db_def)
  from objects_get_key [OF this r(1) r(2)] have "OrderItem_order d item = Inr row"
    by (simp add: OrderItem_order_def)
  with r show ?thesis by blast
qed

text \<open>
  Claim C9.  For a logged-in user, on a database with unique primary keys:
  \<open>remove_from_cart\<close> deletes the line item with the given id exactly when that item
  exists and its order belongs to the requesting user and is open, and then nothing else
  changes; in every other case the answer is the 404 response and the database, every
  order and line item of every user, is as before.
\<close>

theorem remove_from_cart_owner_only:
  assumes "request.user req = Some u" and "wf_db d"
  shows "if list_ex (\<lambda>i. OrderItem.pk i = item_id \<and> in_open_order_of d (User.pk u) i)
               (OrderItem_objects d)
         then fst (remove_from_cart d req item_id)
                = d\<lparr>OrderItem_objects :=
                      filter (\<lambda>i. OrderItem.pk i \<noteq> item_id) (OrderItem_objects d)\<rparr>
         else remove_from_cart d req item_id = (d, HttpResponseNotFound)"
proof (cases "list_ex (\<lambda>i. OrderItem.pk i = item_id \<and> in_open_order_of d (User.pk u) i)
               (OrderItem_objects d)")
  case True
  then obtain item where
    i: "item \<in> set (OrderItem_objects d)" "OrderItem.pk item = item_id"
       "in_open_order_of d (User.pk u) item"
    by (auto simp: list_ex_iff)
  from assms(2) have "distinct (map OrderItem.pk (OrderItem_objects d))" by (simp add: wf_db_def)
  from objects_get_unique [OF this i(1) i(2), of "in_open_order_of d (User.pk u)"] i(3)
  have g: "get_object_or_404 (\<lambda>i. OrderItem.pk i = item_id \<and> in_open_order_of d (User.pk u) i)
             (OrderItem_objects d) = Inr item"
    by (simp add: get_object_or_404_Inr)
  from OrderItem_order_found [OF assms(2) i(3)] obtain row where
    "OrderItem_order d item = Inr row" by blast
  with g assms(1) i(2) have "fst (remove_from_cart d req item_id)
      = d\<lparr>OrderItem_objects := filter (\<lambda>i. OrderItem.pk i \<noteq> item_id) (OrderItem_objects d)\<rparr>"
    by (simp add: remove_from_cart_def OrderItem_delete_def Let_def)
  with True show ?thesis by simp
next
  case False
  then have "objects_get (\<lambda>i. OrderItem.pk i = item_id \<and> in_open_order_of d (User.pk u) i)
               (OrderItem_objects d) = Inl DoesNotExist"
    by (rule objects_get_none)
  then have "remove_from_cart d req item_id = (d, HttpResponseNotFound)"
    using assms(1) by (simp add: remove_from_cart_def get_object_or_404_def raised_def)
  with False show ?thesis by simp
qed

lemma wf_db_carts: "wf_db db_carts"
  by (simp add: wf_db_def db_carts_def)

theorem remove_from_cart_owner_only_witness:
  "request.user (mk_request ''POST'' (Some bob) [] True) = Some bob
   \<and> wf_db db_carts
   \<and> remove_from_cart db_carts (mk_request ''POST'' (Some bob) [] True) 1
       = (db_carts, HttpResponseNotFound)
   \<and> OrderItem_objects (fst (remove_from_cart db_carts (mk_request ''POST'' (Some alice) [] True) 1))
       = [\<lparr>OrderItem.pk = 2, order = 1, product = rice, quantity = 2\<rparr>,
          \<lparr>OrderItem.pk = 3, order = 2, product = tea, quantity = 1\<rparr>]"
proof -
  have ub: "request.user (mk_request ''POST'' (Some bob) [] True) = Some bob"
    and ua: "request.user (mk_request ''POST'' (Some alice) [] True) = Some alice"
    by (simp_all add: mk_request_def)
  have nb: "\<not> list_ex (\<lambda>i. OrderItem.pk i = 1 \<and> in_open_order_of db_carts (User.pk bob) i)
               (OrderItem_objects db_carts)"
    by (simp add: in_open_order_of_def db_carts_def bob_def)
  have ya: "list_ex (\<lambda>i. OrderItem.pk i = 1 \<and> in_open_order_of db_carts (User.pk alice) i)
               (OrderItem_objects db_carts)"
    by (simp add: in_open_order_of_def db_carts_def alice_def)
  from remove_from_cart_owner_only [OF ub wf_db_carts, of 1] nb
  have 1: "remove_from_cart db_carts (mk_request ''POST'' (Some bob) [] True) 1
       = (db_carts, HttpResponseNotFound)" by simp
  from remove_from_cart_owner_only [OF ua wf_db_carts, of 1] ya
  have "fst (remove_from_cart db_carts (mk_request ''POST'' (Some alice) [] True) 1)
       = db_carts\<lparr>OrderItem_objects :=
                      filter (\<lambda>i. OrderItem.pk i \<noteq> 1) (OrderItem_objects db_carts)\<rparr>" by simp
  then have 2: "OrderItem_objects (fst (remove_from_cart db_carts (mk_request ''POST'' (Some alice) [] True) 1))
       = [\<lparr>OrderItem.pk = 2, order = 1, product = rice, quantity = 2\<rparr>,
          \<lparr>OrderItem.pk = 3, order = 2, product = tea, quantity = 1\<rparr>]"
    by (simp add: db_carts_def)
  from ub wf_db_carts 1 2 show ?thesis by blast
qed

section \<open>Updating a quantity\<close>

lemma OrderItem_save_present:
  assumes "item \<in> set (OrderItem_objects d)" "OrderItem.pk item' = OrderItem.pk item"
  shows "OrderItem_save item' d
           = d\<lparr>OrderItem_objects :=
                 map (\<lambda>i. if OrderItem.pk i = OrderItem.pk item then item' else i)
                     (OrderItem_objects d)\<rparr>"
proof -
  from assms have "list_ex (\<lambda>i. OrderItem.pk i = OrderItem.pk item') (OrderItem_objects d)"
    by (auto simp: list_ex_iff)
  with assms(2) show ?thesis by (simp add: OrderItem_save_def)
qed

lemma map_replace_same:
  assumes "distinct (map f xs)" "x \<in> set xs"
  shows "map (\<lambda>y. if f y = f x then x else y) xs = xs"
proof -
  from assms(1) have "inj_on f (set xs)" by (simp add: distinct_map)
  with assms(2) have "\<forall>y\<in>set xs. f y = f x \<longrightarrow> y = x" by (auto dest: inj_onD)
  then show ?thesis by (intro map_idI) auto
qed


text \<open>What the view writes: the loaded item with the requested quantity.\<close>

lemma update_cart_quantity_writes:
  assumes "request.user req = Some u"
    and "get_object_or_404
           (\<lambda>i. OrderItem.pk i = item_id \<and> in_open_order_of d (User.pk u) i)
           (OrderItem_objects d) = Inr item"
  shows "\<exists>q'. fst (update_cart_quantity d req item_id)
                 = (if request_method req = ''POST''
                    then OrderItem_save (item\<lparr>quantity := q'\<rparr>) d else d)
          \<and> q' = (if request_method req = ''POST''
                   then (case POST req ''quantity'' of
                           Some q \<Rightarrow> (case py_int q of Some n \<Rightarrow> max 1 n | None \<Rightarrow> quantity item)
                         | None \<Rightarrow>
                             if POST req ''action'' = Some ''increase'' then quantity item + 1
                             else if POST req ''action'' = Some ''decrease''
                             then max 1 (quantity item - 1)
                             else quantity item)
                   else quantity item)"
  using assms
  by (auto simp: update_cart_quantity_def Let_def split: option.splits sum.splits)



text \<open>
  On a database with unique keys the table after the call is the old one with the
  requested quantity written into the row of that id.
\<close>

lemma update_cart_quantity_items:
  assumes "request.user req = Some u"
    and "wf_db d"
    and "get_object_or_404
           (\<lambda>i. OrderItem.pk i = item_id \<and> in_open_order_of d (User.pk u) i)
           (OrderItem_objects d) = Inr item"
  shows "\<exists>q'. fst (update_cart_quantity d req item_id)
                 = d\<lparr>OrderItem_objects :=
                       map (\<lambda>i. if OrderItem.pk i = item_id then item\<lparr>quantity := q'\<rparr> else i)
                           (OrderItem_objects d)\<rparr>
          \<and> q' = (if request_method req = ''POST''
                   then (case POST req ''quantity'' of
                           Some q \<Rightarrow> (case py_int q of Some n \<Rightarrow> max 1 n | None \<Rightarrow> quantity item)
                         | None \<Rightarrow>
                             if POST req ''action'' = Some ''increase'' then quantity item + 1
                             else if POST req ''action'' = Some ''decrease''
                             then max 1 (quantity item - 1)
                             else quantity item)
                   else quantity item)"
proof -
  from assms(3) have "objects_get
           (\<lambda>i. OrderItem.pk i = item_id \<and> in_open_order_of d (User.pk u) i)
           (OrderItem_objects d) = Inr item"
    by (simp add: get_object_or_404_Inr)
  from objects_get_Inr_mem [OF this]
  have mem: "item \<in> set (OrderItem_objects d)" and pk: "OrderItem.pk item = item_id"
    by simp_all
  from update_cart_quantity_writes [OF assms(1,3)] obtain q' where
    w: "fst (update_cart_quantity d req item_id)
          = (if request_method req = ''POST''
             then OrderItem_save (item\<lparr>quantity := q'\<rparr>) d else d)"
    and q': "q' = (if request_method req = ''POST''
                   then (case POST req ''quantity'' of
                           Some q \<Rightarrow> (case py_int q of Some n \<Rightarrow> max 1 n | None \<Rightarrow> quantity item)
                         | None \<Rightarrow>
                             if POST req ''action'' = Some ''increase'' then quantity item + 1
                             else if POST req ''action'' = Some ''decrease''
                             then max 1 (quantity item - 1)
                             else quantity item)
                   else quantity item)"
    by blast
  have "fst (update_cart_quantity d req item_id)
          = d\<lparr>OrderItem_objects :=
                map (\<lambda>i. if OrderItem.pk i = item_id then item\<lparr>quantity := q'\<rparr> else i)
                    (OrderItem_objects d)\<rparr>"
  proof (cases "request_method req = ''POST''")
    case True
    with w OrderItem_save_present [OF mem, of "item\<lparr>quantity := q'\<rparr>"] pk
    show ?thesis by simp
  next
    case False
    with q' have e: "item\<lparr>quantity := q'\<rparr> = item" by simp
    from assms(2) have "distinct (map OrderItem.pk (OrderItem_objects d))"
      by (simp add: wf_db_def)
    from map_replace_same [OF this mem] pk
    have "map (\<lambda>i. if OrderItem.pk i = item_id then item else i) (OrderItem_objects d)
            = OrderItem_objects d" by simp
    then have "map (\<lambda>i. if OrderItem.pk i = item_id then item\<lparr>quantity := q'\<rparr> else i)
                 (OrderItem_objects d) = OrderItem_objects d"
      by (simp only: e)
    then show ?thesis using w False by simp
  qed
  with q' show ?thesis by blast
qed

text \<open>
  Claim C6.  For a line item of the requesting user's open order whose quantity is at least
  1, on a database with unique primary keys: after \<open>update_cart_quantity\<close>, whatever the
  request, the table holds the same rows by id (nothing is deleted) and the quantity of
  the item is at least 1; a decrease at quantity 1 leaves 1, and an explicit value below 1
  is stored as 1.
\<close>

theorem update_quantity_at_least_one:
  assumes "request.user req = Some u"
    and "wf_db d"
    and "get_object_or_404
           (\<lambda>i. OrderItem.pk i = item_id \<and> in_open_order_of d (User.pk u) i)
           (OrderItem_objects d) = Inr item"
    and "1 \<le> quantity item"
  shows "map OrderItem.pk (OrderItem_objects (fst (update_cart_quantity d req item_id)))
           = map OrderItem.pk (OrderItem_objects d)
       \<and> (\<forall>i \<in> set (OrderItem_objects (fst (update_cart_quantity d req item_id))).
             OrderItem.pk i = item_id \<longrightarrow> 1 \<le> quantity i)
       \<and> (request_method req = ''POST'' \<and> POST req ''quantity'' = None
            \<and> POST req ''action'' = Some ''decrease'' \<and> quantity item = 1 \<longrightarrow>
           (\<forall>i \<in> set (OrderItem_objects (fst (update_cart_quantity d req item_id))).
             OrderItem.pk i = item_id \<longrightarrow> quantity i = 1))
       \<and> (request_method req = ''POST'' \<and> POST req ''quantity'' = Some q
            \<and> py_int q = Some n \<and> n < 1 \<longrightarrow>
           (\<forall>i \<in> set (OrderItem_objects (fst (update_cart_quantity d req item_id))).
             OrderItem.pk i = item_id \<longrightarrow> quantity i = 1))"
proof -
  from update_cart_quantity_items [OF assms(1,2,3)] obtain q' where
    w: "fst (update_cart_quantity d req item_id)
          = d\<lparr>OrderItem_objects :=
                map (\<lambda>i. if OrderItem.pk i = item_id then item\<lparr>quantity := q'\<rparr> else i)
                    (OrderItem_objects d)\<rparr>"
    and q': "q' = (if request_method req = ''POST''
                   then (case POST req ''quantity'' of
                           Some q \<Rightarrow> (case py_int q of Some n \<Rightarrow> max 1 n | None \<Rightarrow> quantity item)
                         | None \<Rightarrow>
                             if POST req ''action'' = Some ''increase'' then quantity item + 1
                             else if POST req ''action'' = Some ''decrease''
                             then max 1 (quantity item - 1)
                             else quantity item)
                   else quantity item)"
    by blast
  from assms(3) have "objects_get
           (\<lambda>i. OrderItem.pk i = item_id \<and> in_open_order_of d (User.pk u) i)
           (OrderItem_objects d) = Inr item"
    by (simp add: get_object_or_404_Inr)
  from objects_get_Inr_mem [OF this] have pk: "OrderItem.pk item = item_id" by simp
  let ?items' = "OrderItem_objects (fst (update_cart_quantity d req item_id))"
  have rows: "\<forall>i \<in> set ?items'. OrderItem.pk i = item_id \<longrightarrow> quantity i = q'"
    by (auto simp: w)
  have keys: "map OrderItem.pk ?items' = map OrderItem.pk (OrderItem_objects d)"
    using pk by (simp add: w o_def cong: map_cong)
  have ge: "1 \<le> q'" using q' assms(4) by (auto split: option.splits)
  have dec: "request_method req = ''POST'' \<and> POST req ''quantity'' = None
            \<and> POST req ''action'' = Some ''decrease'' \<and> quantity item = 1 \<longrightarrow> q' = 1"
    using q' by simp
  have low: "request_method req = ''POST'' \<and> POST req ''quantity'' = Some q
            \<and> py_int q = Some n \<and> n < 1 \<longrightarrow> q' = 1"
    using q' by auto
  from rows keys ge dec low show ?thesis by simp
qed


text \<open>The integer conversion on some inputs.\<close>

lemma py_int_examples:
  "py_int ''abc'' = None" "py_int '' 12 '' = Some 12" "py_int ''-5'' = Some (- 5)"
  "py_int ''1_000'' = Some 1000" "py_int ''1__0'' = None" "py_int [] = None"
  "py_int ''+7'' = Some 7" "py_int ''12a'' = None" "py_int ''1.5'' = None" "py_int ''0'' = Some 0"
  "py_int ''- 5'' = None" "py_int ''007'' = Some 7" "py_int ''_7'' = None" "py_int ''7_'' = None"
  by code_simp+

theorem update_quantity_at_least_one_witness:
  "request.user (mk_request ''POST'' (Some bob) [(''action'', ''decrease'')] True) = Some bob
   \<and> wf_db db_carts
   \<and> get_object_or_404
         (\<lambda>i. OrderItem.pk i = 3 \<and> in_open_order_of db_carts (User.pk bob) i)
         (OrderItem_objects db_carts)
       = Inr \<lparr>OrderItem.pk = 3, order = 2, product = tea, quantity = 1\<rparr>
   \<and> map OrderItem.pk (OrderItem_objects (fst (update_cart_quantity db_carts
          (mk_request ''POST'' (Some bob) [(''action'', ''decrease'')] True) 3))) = [1, 2, 3]
   \<and> map quantity (OrderItem_objects (fst (update_cart_quantity db_carts
          (mk_request ''POST'' (Some bob) [(''action'', ''decrease'')] True) 3))) = [3, 2, 1]"
proof -
  let ?req = "mk_request ''POST'' (Some bob) [(''action'', ''decrease'')] True"
  let ?item = "\<lparr>OrderItem.pk = 3, order = 2, product = tea, quantity = 1\<rparr>"
  let ?items' = "OrderItem_objects (fst (update_cart_quantity db_carts ?req 3))"
  have u: "request.user ?req = Some bob" by (simp add: mk_request_def)
  have g: "get_object_or_404
         (\<lambda>i. OrderItem.pk i = 3 \<and> in_open_order_of db_carts (User.pk bob) i)
         (OrderItem_objects db_carts) = Inr ?item"
    by (simp add: get_object_or_404_def objects_get_def in_open_order_of_def db_carts_def bob_def)
  have q: "1 \<le> quantity ?item" by simp
  have r: "request_method ?req = ''POST'' \<and> POST ?req ''quantity'' = None
            \<and> POST ?req ''action'' = Some ''decrease'' \<and> quantity ?item = 1"
    by (simp add: mk_request_def)
  from update_quantity_at_least_one [OF u wf_db_carts g q] r
  have keys: "map OrderItem.pk ?items' = map OrderItem.pk (OrderItem_objects db_carts)"
    and one: "\<forall>i \<in> set ?items'. OrderItem.pk i = 3 \<longrightarrow> quantity i = 1"
    by blast+
  from keys have k: "map OrderItem.pk ?items' = [1, 2, 3]" by (simp add: db_carts_def)
  have v: "map quantity ?items' = [3, 2, 1]" by code_simp
  from u wf_db_carts g k v show ?thesis by blast
qed



section \<open>Adding to the cart\<close>

lemma view_open_order_found:
  "objects_get (\<lambda>row. Order.user row = u \<and> \<not> completed row) (Order_objects d) = Inr the_order
   \<Longrightarrow> view_get_or_create_open_order d u = (d, Inr the_order)"
  by (simp add: view_get_or_create_open_order_def)

lemma OrderItem_get_or_create_new:
  assumes "cart_lines d the_order (Product.pk the_product) = []"
  shows "OrderItem_get_or_create d the_order the_product q
           = (d\<lparr>OrderItem_objects := OrderItem_objects d
                    @ [\<lparr>OrderItem.pk = next_OrderItem_pk d, order = Order.pk the_order,
                        product = the_product, quantity = q\<rparr>],
                 next_OrderItem_pk := Suc (next_OrderItem_pk d)\<rparr>,
              Inr (\<lparr>OrderItem.pk = next_OrderItem_pk d, order = Order.pk the_order,
                     product = the_product, quantity = q\<rparr>, True))"
  using assms by (simp add: OrderItem_get_or_create_def objects_get_def cart_lines_def Let_def)

lemma OrderItem_get_or_create_old:
  assumes "cart_lines d the_order (Product.pk the_product) = [item]"
  shows "OrderItem_get_or_create d the_order the_product q = (d, Inr (item, False))"
  using assms by (simp add: OrderItem_get_or_create_def objects_get_def cart_lines_def)

lemma add_to_cart_first:
  assumes "request.user req = Some u"
    and "get_object_or_404 (\<lambda>row. Product.pk row = p) (Product_objects d) = Inr the_product"
    and "objects_get (\<lambda>row. Order.user row = User.pk u \<and> \<not> completed row) (Order_objects d)
           = Inr the_order"
    and "cart_lines d the_order p = []"
  shows "fst (add_to_cart d req p)
           = d\<lparr>OrderItem_objects := OrderItem_objects d
                    @ [\<lparr>OrderItem.pk = next_OrderItem_pk d, order = Order.pk the_order,
                        product = the_product, quantity = 1\<rparr>],
                 next_OrderItem_pk := Suc (next_OrderItem_pk d)\<rparr>"
proof -
  from assms(2) have "objects_get (\<lambda>row. Product.pk row = p) (Product_objects d) = Inr the_product"
    by (simp add: get_object_or_404_Inr)
  from objects_get_Inr_mem [OF this] have p: "Product.pk the_product = p" by simp
  with assms(4) have "cart_lines d the_order (Product.pk the_product) = []" by simp
  from OrderItem_get_or_create_new [OF this, of 1] assms(1,2) view_open_order_found [OF assms(3)]
  show ?thesis by (simp add: add_to_cart_def Let_def)
qed

lemma add_to_cart_again:
  assumes "request.user req = Some u"
    and "get_object_or_404 (\<lambda>row. Product.pk row = p) (Product_objects d) = Inr the_product"
    and "objects_get (\<lambda>row. Order.user row = User.pk u \<and> \<not> completed row) (Order_objects d)
           = Inr the_order"
    and "cart_lines d the_order p = [item]"
  shows "fst (add_to_cart d req p) = OrderItem_increment (OrderItem.pk item) d"
proof -
  from assms(2) have "objects_get (\<lambda>row. Product.pk row = p) (Product_objects d) = Inr the_product"
    by (simp add: get_object_or_404_Inr)
  from objects_get_Inr_mem [OF this] have p: "Product.pk the_product = p" by simp
  with assms(4) have "cart_lines d the_order (Product.pk the_product) = [item]" by simp
  from OrderItem_get_or_create_old [OF this, of 1] assms(1,2) view_open_order_found [OF assms(3)]
  show ?thesis by (simp add: add_to_cart_def Let_def)
qed

lemma cart_lines_increment:
  "cart_lines (OrderItem_increment k d) the_order p
     = map (\<lambda>i. if OrderItem.pk i = k then i\<lparr>quantity := quantity i + 1\<rparr> else i)
           (cart_lines d the_order p)"
  by (simp add: cart_lines_def OrderItem_increment_def filter_map o_def if_distrib cong: if_cong)


text \<open>
  Claim C5.  For a logged-in user with one open order and an existing product: when the
  order has no line for the product, \<open>add_to_cart\<close> appends exactly one line item, with
  quantity 1; when it has one, the call adds 1 to the quantity of that row and adds no
  row; so two calls in a row, starting without a line, leave one line with quantity 2.
\<close>

theorem add_to_cart_one_line_per_product:
  assumes "request.user req = Some u"
    and "get_object_or_404 (\<lambda>row. Product.pk row = p) (Product_objects d) = Inr the_product"
    and "objects_get (\<lambda>row. Order.user row = User.pk u \<and> \<not> completed row) (Order_objects d)
           = Inr the_order"
  shows "(cart_lines d the_order p = [] \<longrightarrow>
            OrderItem_objects (fst (add_to_cart d req p))
              = OrderItem_objects d
                @ [\<lparr>OrderItem.pk = next_OrderItem_pk d, order = Order.pk the_order,
                    product = the_product, quantity = 1\<rparr>]
          \<and> cart_lines (fst (add_to_cart d req p)) the_order p
              = [\<lparr>OrderItem.pk = next_OrderItem_pk d, order = Order.pk the_order,
                  product = the_product, quantity = 1\<rparr>]
          \<and> cart_lines (fst (add_to_cart (fst (add_to_cart d req p)) req p)) the_order p
              = [\<lparr>OrderItem.pk = next_OrderItem_pk d, order = Order.pk the_order,
                  product = the_product, quantity = 2\<rparr>])
       \<and> (cart_lines d the_order p = [item] \<longrightarrow>
            OrderItem_objects (fst (add_to_cart d req p))
              = map (\<lambda>i. if OrderItem.pk i = OrderItem.pk item
                          then i\<lparr>quantity := quantity i + 1\<rparr> else i)
                    (OrderItem_objects d)
          \<and> cart_lines (fst (add_to_cart d req p)) the_order p
              = [item\<lparr>quantity := quantity item + 1\<rparr>])"
proof (intro conjI impI)
  let ?new = "\<lparr>OrderItem.pk = next_OrderItem_pk d, order = Order.pk the_order,
                product = the_product, quantity = 1\<rparr>"
  let ?d1 = "d\<lparr>OrderItem_objects := OrderItem_objects d @ [?new],
               next_OrderItem_pk := Suc (next_OrderItem_pk d)\<rparr>"
  from assms(2) have "objects_get (\<lambda>row. Product.pk row = p) (Product_objects d) = Inr the_product"
    by (simp add: get_object_or_404_Inr)
  from objects_get_Inr_mem [OF this] have p: "Product.pk the_product = p" by simp
  assume empty: "cart_lines d the_order p = []"
  from add_to_cart_first [OF assms empty] have d1: "fst (add_to_cart d req p) = ?d1" .
  then show "OrderItem_objects (fst (add_to_cart d req p)) = OrderItem_objects d @ [?new]"
    by simp
  have lines1: "cart_lines ?d1 the_order p = [?new]"
    using empty p by (simp add: cart_lines_def)
  with d1 show "cart_lines (fst (add_to_cart d req p)) the_order p = [?new]" by simp
  have g1: "get_object_or_404 (\<lambda>row. Product.pk row = p) (Product_objects ?d1) = Inr the_product"
    using assms(2) by simp
  have o1: "objects_get (\<lambda>row. Order.user row = User.pk u \<and> \<not> completed row) (Order_objects ?d1)
              = Inr the_order"
    using assms(3) by simp
  from add_to_cart_again [OF assms(1) g1 o1 lines1]
  have "fst (add_to_cart ?d1 req p) = OrderItem_increment (next_OrderItem_pk d) ?d1" by simp
  then have "cart_lines (fst (add_to_cart ?d1 req p)) the_order p
               = map (\<lambda>i. if OrderItem.pk i = next_OrderItem_pk d
                           then i\<lparr>quantity := quantity i + 1\<rparr> else i) [?new]"
    by (simp only: cart_lines_increment lines1)
  with d1 show "cart_lines (fst (add_to_cart (fst (add_to_cart d req p)) req p)) the_order p
              = [\<lparr>OrderItem.pk = next_OrderItem_pk d, order = Order.pk the_order,
                  product = the_product, quantity = 2\<rparr>]"
    by simp
next
  assume one: "cart_lines d the_order p = [item]"
  from add_to_cart_again [OF assms one]
  have d1: "fst (add_to_cart d req p) = OrderItem_increment (OrderItem.pk item) d" .
  then show "OrderItem_objects (fst (add_to_cart d req p))
              = map (\<lambda>i. if OrderItem.pk i = OrderItem.pk item
                          then i\<lparr>quantity := quantity i + 1\<rparr> else i)
                    (OrderItem_objects d)"
    by (simp add: OrderItem_increment_def)
  from d1 one show "cart_lines (fst (add_to_cart d req p)) the_order p
              = [item\<lparr>quantity := quantity item + 1\<rparr>]"
    by (simp add: cart_lines_increment)
qed

theorem add_to_cart_one_line_per_product_witness:
  "request.user (mk_request ''POST'' (Some bob) [] True) = Some bob
   \<and> get_object_or_404 (\<lambda>row. Product.pk row = 2) (Product_objects db_carts) = Inr rice
   \<and> objects_get (\<lambda>row. Order.user row = User.pk bob \<and> \<not> completed row)
        (Order_objects db_carts) = Inr \<lparr>Order.pk = 2, user = 2, completed = False\<rparr>
   \<and> cart_lines db_carts \<lparr>Order.pk = 2, user = 2, completed = False\<rparr> 2 = []
   \<and> cart_lines (fst (add_to_cart (fst (add_to_cart db_carts
                     (mk_request ''POST'' (Some bob) [] True) 2))
                     (mk_request ''POST'' (Some bob) [] True) 2))
        \<lparr>Order.pk = 2, user = 2, completed = False\<rparr> 2
       = [\<lparr>OrderItem.pk = 4, order = 2, product = rice, quantity = 2\<rparr>]
   \<and> cart_lines db_carts \<lparr>Order.pk = 2, user = 2, completed = False\<rparr> 1
       = [\<lparr>OrderItem.pk = 3, order = 2, product = tea, quantity = 1\<rparr>]
   \<and> cart_lines (fst (add_to_cart db_carts (mk_request ''POST'' (Some bob) [] True) 1))
        \<lparr>Order.pk = 2, user = 2, completed = False\<rparr> 1
       = [\<lparr>OrderItem.pk = 3, order = 2, product = tea, quantity = 2\<rparr>]"
proof -
  let ?req = "mk_request ''POST'' (Some bob) [] True"
  let ?ord = "\<lparr>Order.pk = 2, user = 2, completed = False\<rparr>"
  have u: "request.user ?req = Some bob" by (simp add: mk_request_def)
  have g2: "get_object_or_404 (\<lambda>row. Product.pk row = 2) (Product_objects db_carts) = Inr rice"
    by (simp add: get_object_or_404_def objects_get_def db_carts_def tea_def rice_def)
  have g1: "get_object_or_404 (\<lambda>row. Product.pk row = 1) (Product_objects db_carts) = Inr tea"
    by (simp add: get_object_or_404_def objects_get_def db_carts_def tea_def rice_def)
  have o: "objects_get (\<lambda>row. Order.user row = User.pk bob \<and> \<not> completed row)
        (Order_objects db_carts) = Inr ?ord"
    by (simp add: objects_get_def db_carts_def bob_def)
  have e: "cart_lines db_carts ?ord 2 = []"
    by (simp add: cart_lines_def db_carts_def tea_def rice_def)
  have l: "cart_lines db_carts ?ord 1
             = [\<lparr>OrderItem.pk = 3, order = 2, product = tea, quantity = 1\<rparr>]"
    by (simp add: cart_lines_def db_carts_def tea_def rice_def)
  have n: "next_OrderItem_pk db_carts = 4" by (simp add: db_carts_def)
  from add_to_cart_one_line_per_product [OF u g2 o] e n
  have a: "cart_lines (fst (add_to_cart (fst (add_to_cart db_carts ?req 2)) ?req 2)) ?ord 2
       = [\<lparr>OrderItem.pk = 4, order = 2, product = rice, quantity = 2\<rparr>]"
    by simp
  from add_to_cart_one_line_per_product
         [OF u g1 o, of "\<lparr>OrderItem.pk = 3, order = 2, product = tea, quantity = 1\<rparr>"] l
  have b: "cart_lines (fst (add_to_cart db_carts ?req 1)) ?ord 1
       = [\<lparr>OrderItem.pk = 3, order = 2, product = tea, quantity = 2\<rparr>]"
    by simp
  from u g2 o e a l b show ?thesis by blast
qed

section \<open>The completed flag under runs of storefront requests\<close>

lemma kc_refl: "wf_db d \<Longrightarrow> keeps_completed d d"
  by (simp add: keeps_completed_def)

lemma kc_trans: "keeps_completed a b \<Longrightarrow> keeps_completed b c \<Longrightarrow> keeps_completed a c"
  by (simp add: keeps_completed_def)

lemma kc_wf: "keeps_completed a b \<Longrightarrow> wf_db b"
  by (simp add: keeps_completed_def)

lemma kc_Order_create:
  assumes "wf_db d" "Order_create d u c = (d', new)"
  shows "keeps_completed d d'"
proof -
  from assms(2) have d': "d' = d\<lparr>Order_objects := Order_objects d
                 @ [\<lparr>Order.pk = next_Order_pk d, user = u, completed = c\<rparr>],
               next_Order_pk := Suc (next_Order_pk d)\<rparr>"
    by (auto simp: Order_create_def Let_def)
  from assms(1) have "\<forall>row\<in>set (Order_objects d). Order.pk row < next_Order_pk d"
    by (simp add: wf_db_def list_all_iff)
  then have fresh: "next_Order_pk d \<notin> Order.pk ` set (Order_objects d)"
    and bound: "\<forall>row\<in>set (Order_objects d). Order.pk row < Suc (next_Order_pk d)"
    by (auto simp: less_Suc_eq)
  with assms(1) have "wf_db d'"
    by (simp add: d' wf_db_def list_all_iff)
  then show ?thesis by (simp add: keeps_completed_def d')
qed

lemma kc_view_get_or_create_open_order:
  assumes "wf_db d" "view_get_or_create_open_order d u = (d', r)"
  shows "keeps_completed d d'"
proof (cases "objects_get (\<lambda>row. Order.user row = u \<and> \<not> completed row) (Order_objects d)")
  case (Inl e)
  show ?thesis
  proof (cases "e = DoesNotExist")
    case True
    obtain d1 new where c: "Order_create d u False = (d1, new)" by (cases "Order_create d u False")
    with Inl True assms(2) have "d' = d1" by (simp add: view_get_or_create_open_order_def)
    with kc_Order_create [OF assms(1) c] show ?thesis by simp
  next
    case False
    with Inl assms(2) have "d' = d"
      by (cases e) (simp_all add: view_get_or_create_open_order_def)
    with assms(1) show ?thesis by (simp add: kc_refl)
  qed
next
  case (Inr x)
  with assms(2) have "d' = d" by (simp add: view_get_or_create_open_order_def)
  with assms(1) show ?thesis by (simp add: kc_refl)
qed

lemma kc_OrderItem_get_or_create:
  assumes "wf_db d" "OrderItem_get_or_create d the_order the_product q = (d', r)"
  shows "keeps_completed d d'"
proof -
  have "d' = d \<or> d' = d\<lparr>OrderItem_objects := OrderItem_objects d
                    @ [\<lparr>OrderItem.pk = next_OrderItem_pk d, order = Order.pk the_order,
                        product = the_product, quantity = q\<rparr>],
                 next_OrderItem_pk := Suc (next_OrderItem_pk d)\<rparr>"
    using assms(2)
    by (auto simp: OrderItem_get_or_create_def Let_def split: sum.splits exn.splits)
  moreover from assms(1) have "\<forall>i\<in>set (OrderItem_objects d). OrderItem.pk i < next_OrderItem_pk d"
    by (simp add: wf_db_def list_all_iff)
  then have "next_OrderItem_pk d \<notin> OrderItem.pk ` set (OrderItem_objects d)"
    and "\<forall>i\<in>set (OrderItem_objects d). OrderItem.pk i < Suc (next_OrderItem_pk d)"
    by (auto simp: less_Suc_eq)
  ultimately show ?thesis using assms(1)
    by (auto simp: keeps_completed_def wf_db_def list_all_iff)
qed

lemma wf_db_keys:
  assumes "wf_db d"
    and "map Order.pk (Order_objects d') = map Order.pk (Order_objects d)"
    and "map OrderItem.pk (OrderItem_objects d') = map OrderItem.pk (OrderItem_objects d)"
    and "next_Order_pk d' = next_Order_pk d"
    and "next_OrderItem_pk d' = next_OrderItem_pk d"
  shows "wf_db d'"
proof -
  have wf: "\<And>e. wf_db e \<longleftrightarrow>
      distinct (map Order.pk (Order_objects e)) \<and>
      distinct (map OrderItem.pk (OrderItem_objects e)) \<and>
      (\<forall>k \<in> set (map Order.pk (Order_objects e)). k < next_Order_pk e) \<and>
      (\<forall>k \<in> set (map OrderItem.pk (OrderItem_objects e)). k < next_OrderItem_pk e)"
    by (simp add: wf_db_def list_all_iff)
  from assms(1) show ?thesis
    unfolding wf [of d'] wf [of d] assms(2-5) by blast
qed

lemma map_key_replace:
  assumes "\<And>x. x \<in> set xs \<Longrightarrow> f (g x) = f x"
  shows "map f (map (\<lambda>x. if f x = k then g x else x) xs) = map f xs"
  using assms by (induction xs) auto

lemma kc_same_orders:
  "wf_db d' \<Longrightarrow> Order_objects d' = Order_objects d \<Longrightarrow> keeps_completed d d'"
  by (simp add: keeps_completed_def)

lemma kc_OrderItem_increment:
  assumes "wf_db d"
  shows "keeps_completed d (OrderItem_increment k d)"
proof -
  have "map OrderItem.pk (OrderItem_objects (OrderItem_increment k d))
          = map OrderItem.pk (OrderItem_objects d)"
    unfolding OrderItem_increment_def
    using map_key_replace [of "OrderItem_objects d" OrderItem.pk
                              "\<lambda>i. i\<lparr>quantity := quantity i + 1\<rparr>" k]
    by simp
  then have "wf_db (OrderItem_increment k d)"
    by (intro wf_db_keys [OF assms]) (simp_all add: OrderItem_increment_def)
  then show ?thesis by (rule kc_same_orders) (simp add: OrderItem_increment_def)
qed

lemma kc_OrderItem_delete: "wf_db d \<Longrightarrow> keeps_completed d (OrderItem_delete item d)"
  by (simp add: keeps_completed_def wf_db_def OrderItem_delete_def list_all_iff distinct_map_filter)

lemma kc_OrderItem_save:
  assumes "wf_db d" "item \<in> set (OrderItem_objects d)" "OrderItem.pk item' = OrderItem.pk item"
  shows "keeps_completed d (OrderItem_save item' d)"
proof -
  note s = OrderItem_save_present [OF assms(2,3)]
  have "map OrderItem.pk (OrderItem_objects (OrderItem_save item' d))
          = map OrderItem.pk (OrderItem_objects d)"
    using map_key_replace [of "OrderItem_objects d" OrderItem.pk "\<lambda>_. item'" "OrderItem.pk item"]
      assms(3)
    by (simp add: s)
  then have "wf_db (OrderItem_save item' d)"
    by (intro wf_db_keys [OF assms(1)]) (simp_all add: s)
  then show ?thesis by (rule kc_same_orders) (simp add: s)
qed

lemma kc_Order_complete:
  assumes "wf_db d" "x \<in> set (Order_objects d)"
  shows "keeps_completed d (Order_save (x\<lparr>completed := True\<rparr>) d)"
proof -
  let ?x' = "x\<lparr>completed := True\<rparr>"
  let ?rows = "map (\<lambda>row. if Order.pk row = Order.pk x then ?x' else row) (Order_objects d)"
  from assms(2) have s: "Order_save ?x' d = d\<lparr>Order_objects := ?rows\<rparr>"
    by (auto simp: Order_save_def list_ex_iff)
  have keys: "map Order.pk ?rows = map Order.pk (Order_objects d)"
    by (induction "Order_objects d") auto
  from assms(1) have dist: "distinct (map Order.pk (Order_objects d))"
    by (simp add: wf_db_def)
  then have inj: "inj_on Order.pk (set (Order_objects d))" by (simp add: distinct_map)
  have kept: "\<forall>row \<in> set (Order_objects d). completed row \<longrightarrow> row \<in> set ?rows"
  proof (intro ballI impI)
    fix row assume r: "row \<in> set (Order_objects d)" "completed row"
    show "row \<in> set ?rows"
    proof (cases "Order.pk row = Order.pk x")
      case True
      with inj r(1) assms(2) have "row = x" by (auto dest: inj_onD)
      with r(2) have "?x' = row" by simp
      with True r(1) show ?thesis by (force simp: image_iff)
    next
      case False
      with r(1) show ?thesis by (force simp: image_iff)
    qed
  qed
  have "wf_db (d\<lparr>Order_objects := ?rows\<rparr>)"
    by (rule wf_db_keys [OF assms(1)]) (simp_all add: keys)
  with kept s show ?thesis by (simp add: keeps_completed_def)
qed


lemma kc_cart:
  assumes "wf_db d"
  shows "keeps_completed d (fst (cart d req))"
proof (cases "request.user req")
  case None
  with assms show ?thesis by (simp add: cart_def kc_refl)
next
  case (Some u)
  obtain d' r where v: "view_get_or_create_open_order d (User.pk u) = (d', r)"
    by (cases "view_get_or_create_open_order d (User.pk u)")
  with Some have "fst (cart d req) = d'" by (simp add: cart_def split: sum.splits)
  with kc_view_get_or_create_open_order [OF assms v] show ?thesis by simp
qed

lemma kc_add_to_cart:
  assumes "wf_db d"
  shows "keeps_completed d (fst (add_to_cart d req p))"
proof (cases "request.user req")
  case None
  with assms show ?thesis by (simp add: add_to_cart_def kc_refl)
next
  case (Some u)
  show ?thesis
  proof (cases "get_object_or_404 (\<lambda>row. Product.pk row = p) (Product_objects d)")
    case (Inl e)
    with Some assms show ?thesis by (simp add: add_to_cart_def kc_refl)
  next
    case (Inr the_product)
    obtain d1 r1 where v: "view_get_or_create_open_order d (User.pk u) = (d1, r1)"
      by (cases "view_get_or_create_open_order d (User.pk u)")
    note k1 = kc_view_get_or_create_open_order [OF assms v]
    show ?thesis
    proof (cases r1)
      case (Inl e)
      with Some Inr v have "fst (add_to_cart d req p) = d1" by (simp add: add_to_cart_def)
      with k1 show ?thesis by simp
    next
      case r1: (Inr the_order)
      obtain d2 r2 where g: "OrderItem_get_or_create d1 the_order the_product 1 = (d2, r2)"
        by (cases "OrderItem_get_or_create d1 the_order the_product 1")
      note k2 = kc_trans [OF k1 kc_OrderItem_get_or_create [OF kc_wf [OF k1] g]]
      show ?thesis
      proof (cases r2)
        case (Inl e)
        with Some Inr v r1 g have "fst (add_to_cart d req p) = d2"
          by (simp add: add_to_cart_def)
        with k2 show ?thesis by simp
      next
        case r2: (Inr ic)
        obtain item created where ic: "ic = (item, created)" by (cases ic)
        with Some Inr v r1 g r2 have
          "fst (add_to_cart d req p)
             = (if \<not> created then OrderItem_increment (OrderItem.pk item) d2 else d2)"
          by (simp add: add_to_cart_def Let_def)
        with k2 kc_trans [OF k2 kc_OrderItem_increment [OF kc_wf [OF k2]]]
        show ?thesis by simp
      qed
    qed
  qed
qed

lemma kc_remove_from_cart:
  assumes "wf_db d"
  shows "keeps_completed d (fst (remove_from_cart d req item_id))"
proof -
  have "fst (remove_from_cart d req item_id) = d
        \<or> (\<exists>item. fst (remove_from_cart d req item_id) = OrderItem_delete item d)"
    by (auto simp: remove_from_cart_def Let_def split: option.splits sum.splits)
  with assms show ?thesis by (auto simp: kc_refl kc_OrderItem_delete)
qed

lemma kc_update_cart_quantity:
  assumes "wf_db d"
  shows "keeps_completed d (fst (update_cart_quantity d req item_id))"
proof (cases "request.user req")
  case None
  with assms show ?thesis by (simp add: update_cart_quantity_def kc_refl)
next
  case (Some u)
  show ?thesis
  proof (cases "get_object_or_404
           (\<lambda>i. OrderItem.pk i = item_id \<and> in_open_order_of d (User.pk u) i)
           (OrderItem_objects d)")
    case (Inl e)
    with Some assms show ?thesis by (simp add: update_cart_quantity_def kc_refl)
  next
    case (Inr item)
    then have "objects_get
           (\<lambda>i. OrderItem.pk i = item_id \<and> in_open_order_of d (User.pk u) i)
           (OrderItem_objects d) = Inr item"
      by (simp add: get_object_or_404_Inr)
    from objects_get_Inr_mem [OF this] have mem: "item \<in> set (OrderItem_objects d)" by simp
    from update_cart_quantity_writes [OF Some Inr] obtain q' where
      "fst (update_cart_quantity d req item_id)
         = (if request_method req = ''POST''
            then OrderItem_save (item\<lparr>quantity := q'\<rparr>) d else d)"
      by blast
    with kc_OrderItem_save [OF assms mem, of "item\<lparr>quantity := q'\<rparr>"] kc_refl [OF assms]
    show ?thesis by simp
  qed
qed

lemma kc_checkout:
  assumes "wf_db d"
  shows "keeps_completed d (fst (checkout gw d req))"
proof -
  have "fst (checkout gw d req) = d
        \<or> (\<exists>x \<in> set (Order_objects d).
              fst (checkout gw d req) = Order_save (x\<lparr>completed := True\<rparr>) d)"
    by (auto simp: checkout_def Let_def get_object_or_404_Inr
             dest: objects_get_Inr_mem split: option.splits sum.splits)
  with assms show ?thesis by (auto simp: kc_refl kc_Order_complete)
qed

lemma kc_paymenthandler:
  assumes "wf_db d"
  shows "keeps_completed d (fst (paymenthandler gw d req order_id))"
proof -
  have "fst (paymenthandler gw d req order_id) = d
        \<or> (\<exists>x \<in> set (Order_objects d).
              fst (paymenthandler gw d req order_id) = Order_save (x\<lparr>completed := True\<rparr>) d)"
    by (auto simp: paymenthandler_def get_object_or_404_Inr
             dest: objects_get_Inr_mem split: option.splits sum.splits)
  with assms show ?thesis by (auto simp: kc_refl kc_Order_complete)
qed

lemma order_success_fst: "fst (order_success d req order_id) = d"
  by (simp add: order_success_def split: option.splits sum.splits)

lemma kc_dispatch:
  assumes "wf_db d"
  shows "keeps_completed d (fst (dispatch gw d c))"
proof -
  obtain req v where c: "c = (req, v)" by (cases c)
  show ?thesis
    unfolding c using assms
    by (cases v)
       (simp_all add: kc_cart kc_add_to_cart kc_remove_from_cart kc_update_cart_quantity
          kc_checkout kc_paymenthandler order_success_fst kc_refl)
qed

lemma kc_run: "wf_db d \<Longrightarrow> keeps_completed d (run gw d cs)"
proof (induction cs arbitrary: d)
  case Nil
  then show ?case by (simp add: kc_refl)
next
  case (Cons c cs)
  from kc_dispatch [OF Cons.prems] have k: "keeps_completed d (fst (dispatch gw d c))" .
  from Cons.IH [OF kc_wf [OF k]] have "keeps_completed (fst (dispatch gw d c)) (run gw d (c # cs))"
    by simp
  with k show ?case by (rule kc_trans)
qed

lemma paymenthandler_completed_order:
  assumes "wf_db d" "row \<in> set (Order_objects d)" "completed row"
  shows "fst (paymenthandler gw d req (Order.pk row)) = d"
proof -
  from assms(1) have "inj_on Order.pk (set (Order_objects d))"
    by (simp add: wf_db_def distinct_map)
  with assms(2,3) have "\<forall>x \<in> set (Order_objects d). Order.pk x = Order.pk row \<longrightarrow> completed x"
    by (auto dest: inj_onD)
  then have "\<not> list_ex (\<lambda>x. Order.pk x = Order.pk row \<and> Order.user x = u \<and> \<not> completed x)
                 (Order_objects d)" for u
    by (auto simp: list_ex_iff)
  from objects_get_none [OF this] show ?thesis
    by (simp add: paymenthandler_def get_object_or_404_def split: option.splits)
qed


lemma view_get_or_create_open_order_orders:
  "set (Order_objects d) \<subseteq> set (Order_objects (fst (view_get_or_create_open_order d u)))"
  by (auto simp: view_get_or_create_open_order_def Order_create_def Let_def
           split: sum.splits exn.splits)

lemma OrderItem_get_or_create_orders:
  "Order_objects (fst (OrderItem_get_or_create d the_order the_product q)) = Order_objects d"
  by (auto simp: OrderItem_get_or_create_def Let_def split: sum.splits exn.splits)

lemma OrderItem_save_orders: "Order_objects (OrderItem_save item d) = Order_objects d"
  by (simp add: OrderItem_save_def)

lemma cart_orders: "set (Order_objects d) \<subseteq> set (Order_objects (fst (cart d req)))"
proof (cases "request.user req")
  case None
  then show ?thesis by (simp add: cart_def)
next
  case (Some u)
  then have "fst (cart d req) = fst (view_get_or_create_open_order d (User.pk u))"
    by (simp add: cart_def split: prod.splits sum.splits)
  then show ?thesis by (simp add: view_get_or_create_open_order_orders)
qed

lemma add_to_cart_orders:
  "set (Order_objects d) \<subseteq> set (Order_objects (fst (add_to_cart d req p)))"
proof -
  have "Order_objects (fst (add_to_cart d req p)) = Order_objects d
        \<or> (\<exists>u. Order_objects (fst (add_to_cart d req p))
                 = Order_objects (fst (view_get_or_create_open_order d u)))"
    using OrderItem_get_or_create_orders
    by (auto simp: add_to_cart_def Let_def OrderItem_increment_def
             split: option.splits sum.splits prod.splits)
       (metis fst_conv)+
  then show ?thesis
    by (elim disjE exE) (simp, simp add: view_get_or_create_open_order_orders)
qed

lemma remove_from_cart_orders:
  "Order_objects (fst (remove_from_cart d req item_id)) = Order_objects d"
  by (simp add: remove_from_cart_def Let_def OrderItem_delete_def split: option.splits sum.splits)

lemma update_cart_quantity_orders:
  "Order_objects (fst (update_cart_quantity d req item_id)) = Order_objects d"
  by (simp add: update_cart_quantity_def Let_def OrderItem_save_orders
           split: option.splits sum.splits)

lemma open_orders_kept:
  assumes "v \<noteq> Checkout" "\<forall>p. v \<noteq> PaymentHandler p"
  shows "set (Order_objects d) \<subseteq> set (Order_objects (fst (dispatch gw d (req, v))))"
  using assms cart_orders [of d req] add_to_cart_orders [of d req]
  by (cases v)
     (simp_all add: remove_from_cart_orders update_cart_quantity_orders order_success_fst)

lemma order_toggle_completed_row:
  assumes "wf_db d" "row \<in> set (Order_objects d)"
    and "request.user req = Some u" "is_active u" "is_staff u"
  shows "fst (order_toggle_completed d req (Order.pk row))
           = Order_save (row\<lparr>completed := \<not> completed row\<rparr>) d"
proof -
  from assms(1) have "distinct (map Order.pk (Order_objects d))" by (simp add: wf_db_def)
  from objects_get_key [OF this assms(2) refl]
  have "get_object_or_404 (\<lambda>x. Order.pk x = Order.pk row) (Order_objects d) = Inr row"
    by (simp add: get_object_or_404_Inr)
  with assms(3-5) show ?thesis by (simp add: order_toggle_completed_def)
qed

text \<open>
  Claim C4, as amended.  On a database with unique primary keys, a completed order stays
  in the table, completed, through every run of storefront requests (cart, add, remove,
  quantity update, checkout, payment callback, order-success page), and no row with its
  id is open afterwards; a payment callback that targets it leaves the database as it
  is; an order row is changed only by a checkout or a payment callback.  The staff view
  \<open>order_toggle_completed\<close> is an unconditional flip: for a completed order it stores
  \<open>completed = False\<close>.
\<close>

theorem storefront_never_reopens:
  assumes "wf_db d" and "row \<in> set (Order_objects d)" and "completed row"
  shows "row \<in> set (Order_objects (run gw d calls))
       \<and> (\<forall>x \<in> set (Order_objects (run gw d calls)). Order.pk x = Order.pk row \<longrightarrow> completed x)
       \<and> fst (paymenthandler gw d req (Order.pk row)) = d
       \<and> (\<forall>x \<in> set (Order_objects d).
             x \<notin> set (Order_objects (fst (dispatch gw d (req, v)))) \<longrightarrow>
             v = Checkout \<or> (\<exists>p. v = PaymentHandler p))
       \<and> (request.user req = Some u \<and> is_active u \<and> is_staff u \<longrightarrow>
             fst (order_toggle_completed d req (Order.pk row))
               = Order_save (row\<lparr>completed := False\<rparr>) d)"
proof -
  from kc_run [OF assms(1), of gw calls]
  have wf': "wf_db (run gw d calls)" and mem': "row \<in> set (Order_objects (run gw d calls))"
    using assms(2,3) by (simp_all add: keeps_completed_def)
  from wf' have "inj_on Order.pk (set (Order_objects (run gw d calls)))"
    by (simp add: wf_db_def distinct_map)
  with mem' assms(3)
  have same: "\<forall>x \<in> set (Order_objects (run gw d calls)). Order.pk x = Order.pk row \<longrightarrow> completed x"
    by (auto dest: inj_onD)
  have only: "\<forall>x \<in> set (Order_objects d).
             x \<notin> set (Order_objects (fst (dispatch gw d (req, v)))) \<longrightarrow>
             v = Checkout \<or> (\<exists>p. v = PaymentHandler p)"
    using open_orders_kept [of v d gw req] by blast
  have toggle: "request.user req = Some u \<and> is_active u \<and> is_staff u \<longrightarrow>
             fst (order_toggle_completed d req (Order.pk row))
               = Order_save (row\<lparr>completed := False\<rparr>) d"
    using order_toggle_completed_row [OF assms(1,2), of req u] assms(3) by simp
  from mem' same paymenthandler_completed_order [OF assms] only toggle
  show ?thesis by blast
qed

theorem storefront_never_reopens_witness:
  "wf_db db_done
   \<and> \<lparr>Order.pk = 1, user = 1, completed = True\<rparr> \<in> set (Order_objects db_done)
   \<and> \<lparr>Order.pk = 1, user = 1, completed = True\<rparr>
       \<in> set (Order_objects (run gw_reject db_done
                [(mk_request ''POST'' (Some alice) [] True, AddToCart 1),
                 (mk_request ''POST'' (Some alice) [(''payment_method'', ''cod'')] False, Checkout),
                 (mk_request ''POST'' (Some alice) [] False, PaymentHandler 1)]))
   \<and> fst (paymenthandler gw_reject db_done (mk_request ''POST'' (Some alice) [] False) 1) = db_done"
proof -
  let ?row = "\<lparr>Order.pk = 1, user = 1, completed = True\<rparr>"
  have w: "wf_db db_done" by (simp add: wf_db_def db_done_def)
  have m: "?row \<in> set (Order_objects db_done)" by (simp add: db_done_def)
  have c: "completed ?row" by simp
  let ?calls = "[(mk_request ''POST'' (Some alice) [] True, AddToCart 1),
                 (mk_request ''POST'' (Some alice) [(''payment_method'', ''cod'')] False, Checkout),
                 (mk_request ''POST'' (Some alice) [] False, PaymentHandler 1)]"
  from storefront_never_reopens
         [OF w m c, of gw_reject ?calls "mk_request ''POST'' (Some alice) [] False"]
  have "?row \<in> set (Order_objects (run gw_reject db_done ?calls))"
    and "fst (paymenthandler gw_reject db_done (mk_request ''POST'' (Some alice) [] False)
               (Order.pk ?row)) = db_done"
    by blast+
  then have "?row \<in> set (Order_objects (run gw_reject db_done ?calls))"
    and "fst (paymenthandler gw_reject db_done (mk_request ''POST'' (Some alice) [] False) 1)
           = db_done"
    by simp_all
  with w m show ?thesis by blast
qed

text \<open>The staff toggle reopens the completed order 1.\<close>

theorem staff_toggle_reopens_counterexample:
  "Order_objects db_done = [\<lparr>Order.pk = 1, user = 1, completed = True\<rparr>]
   \<and> Order_objects (fst (order_toggle_completed db_done
                           (mk_request ''POST'' (Some clerk) [] False) 1))
       = [\<lparr>Order.pk = 1, user = 1, completed = False\<rparr>]"
  by (simp add: db_done_def order_toggle_completed_def mk_request_def clerk_def
        get_object_or_404_def objects_get_def Order_save_def)

section \<open>The single open order\<close>

lemma filter_open_after_cleanup:
  "filter P (filter (\<lambda>row. \<not> (P row \<and> f row \<noteq> k)) xs) = filter (\<lambda>row. f row = k \<and> P row) xs"
  by (induction xs) auto

text \<open>
  The function of store/utils.py: on a database with unique keys it returns an open order of
  the user, the one with the lowest id if there were any, and leaves exactly that one open.
\<close>

lemma get_or_create_open_order_repairs:
  assumes "wf_db d" and "get_or_create_open_order d u = (d', the_order)"
  shows "filter (\<lambda>row. Order.user row = u \<and> \<not> completed row) (Order_objects d') = [the_order]
       \<and> Order.user the_order = u \<and> \<not> completed the_order
       \<and> (\<forall>row \<in> set (Order_objects d).
             Order.user row = u \<and> \<not> completed row \<longrightarrow>
             the_order \<in> set (Order_objects d) \<and> Order.pk the_order \<le> Order.pk row)"
proof -
  let ?P = "\<lambda>row. Order.user row = u \<and> \<not> completed row"
  let ?qs = "sort_key Order.pk (filter ?P (Order_objects d))"
  show ?thesis
  proof (cases ?qs)
    case Nil
    then have "set (filter ?P (Order_objects d)) = {}"
      by (metis set_sort list.set(1))
    then have none: "filter ?P (Order_objects d) = []" by simp
    from Nil assms(2) have "d' = fst (Order_create d u False)"
      and "the_order = snd (Order_create d u False)"
      by (simp_all add: get_or_create_open_order_def)
    with none have "filter ?P (Order_objects d') = [the_order]"
      and "Order.user the_order = u" and "\<not> completed the_order"
      by (simp_all add: Order_create_def Let_def)
    moreover from none have "\<forall>row \<in> set (Order_objects d). \<not> ?P row"
      by (simp add: filter_empty_conv)
    ultimately show ?thesis by blast
  next
    case (Cons x rest)
    with assms(2) have ord: "the_order = x"
      and d': "d' = Order_filter_delete (\<lambda>row. ?P row \<and> Order.pk row \<noteq> Order.pk x) d"
      by (auto simp: get_or_create_open_order_def)
    have "x \<in> set ?qs" by (simp add: Cons)
    then have mem: "x \<in> set (Order_objects d)" and px: "?P x" by simp_all
    from assms(1) have dist: "distinct (map Order.pk (Order_objects d))" by (simp add: wf_db_def)
    have od: "Order_objects d'
                = filter (\<lambda>row. \<not> (?P row \<and> Order.pk row \<noteq> Order.pk x)) (Order_objects d)"
      by (simp add: d' Order_filter_delete_def Let_def)
    have "filter ?P (Order_objects d')
            = filter (\<lambda>row. Order.pk row = Order.pk x \<and> ?P row) (Order_objects d)"
      unfolding od by (rule filter_open_after_cleanup)
    also have "\<dots> = [x]" using filter_key_unique [OF dist mem refl, of ?P] px by simp
    finally have one: "filter ?P (Order_objects d') = [the_order]" by (simp add: ord)
    have "sorted (map Order.pk ?qs)" by simp
    then have "\<forall>y \<in> set rest. Order.pk x \<le> Order.pk y" by (simp add: Cons)
    then have "\<forall>y \<in> set ?qs. Order.pk x \<le> Order.pk y" by (simp add: Cons)
    then have low: "\<forall>row \<in> set (Order_objects d). ?P row \<longrightarrow> Order.pk x \<le> Order.pk row"
      by simp
    from one px mem low show ?thesis by (simp add: ord)
  qed
qed

text \<open>
  The views themselves produce two open orders: Alice fills a cart and checks out with
  cash on delivery, starts a new cart, and a staff member toggles the first order.
\<close>

lemma db_two_open_reachable:
  "fst (order_toggle_completed
          (run gw_reject db_empty
             [(mk_request ''POST'' (Some alice) [] False, AddToCart 1),
              (mk_request ''POST'' (Some alice) [(''payment_method'', ''cod'')] False, Checkout),
              (mk_request ''POST'' (Some alice) [] False, AddToCart 1)])
          (mk_request ''POST'' (Some clerk) [] False) 1)
     = db_two_open"
  by code_simp

text \<open>
  Claim C1, at a database where a user has two open orders.  The claim asks every entry
  point to keep the earliest open order and delete the rest.  The helper of the cart views
  does not: it raises \<open>MultipleObjectsReturned\<close> and leaves both open orders, so the cart
  page and add-to-cart answer with a server error; \<open>get_or_create_open_order\<close> of
  store/utils.py, which no view calls, keeps order 1 and deletes order 2 with its line item.
\<close>

theorem cart_helper_fails_on_two_open_orders:
  "view_get_or_create_open_order db_two_open 1 = (db_two_open, Inl MultipleObjectsReturned)
   \<and> cart db_two_open (mk_request ''GET'' (Some alice) [] False)
       = (db_two_open, ServerError MultipleObjectsReturned)
   \<and> add_to_cart db_two_open (mk_request ''POST'' (Some alice) [] True) 1
       = (db_two_open, ServerError MultipleObjectsReturned)
   \<and> get_or_create_open_order db_two_open 1
       = (db_two_open
            \<lparr>Order_objects := [\<lparr>Order.pk = 1, user = 1, completed = False\<rparr>],
             OrderItem_objects := [\<lparr>OrderItem.pk = 1, order = 1, product = tea, quantity = 1\<rparr>]\<rparr>,
          \<lparr>Order.pk = 1, user = 1, completed = False\<rparr>)"
proof -
  have v: "view_get_or_create_open_order db_two_open 1
             = (db_two_open, Inl MultipleObjectsReturned)"
    by (simp add: view_get_or_create_open_order_def objects_get_def db_two_open_def)
  have c: "cart db_two_open (mk_request ''GET'' (Some alice) [] False)
       = (db_two_open, ServerError MultipleObjectsReturned)"
    using v by (simp add: cart_def mk_request_def alice_def raised_def)
  have p: "get_object_or_404 (\<lambda>row. Product.pk row = 1) (Product_objects db_two_open) = Inr tea"
    by (simp add: get_object_or_404_def objects_get_def db_two_open_def tea_def rice_def)
  have a: "add_to_cart db_two_open (mk_request ''POST'' (Some alice) [] True) 1
       = (db_two_open, ServerError MultipleObjectsReturned)"
    using v p by (simp add: add_to_cart_def mk_request_def alice_def raised_def)
  have u: "get_or_create_open_order db_two_open 1
       = (db_two_open
            \<lparr>Order_objects := [\<lparr>Order.pk = 1, user = 1, completed = False\<rparr>],
             OrderItem_objects := [\<lparr>OrderItem.pk = 1, order = 1, product = tea, quantity = 1\<rparr>]\<rparr>,
          \<lparr>Order.pk = 1, user = 1, completed = False\<rparr>)"
    by (simp add: get_or_create_open_order_def Order_filter_delete_def db_two_open_def)
  from v c a u show ?thesis by blast
qed

end
